theory Spec2Isabelle
  imports Main
begin

section \<open>Data model\<close>

text \<open>
  The development embeds \<^verbatim>\<open>ARDOUR::IO\<close> (libs/ardour/io.cc and ardour/io.h).
  An IO owns an ordered set of ports, all inputs or all outputs, and brokers their
  registration with the audio backend, their connections, their latency figures and a
  bundle describing them.

  The RCU container is read and written by one thread in everything below, so the
  current snapshot is a field of the IO; a writer copy is a local value that is
  stored back when the writer's scope ends (also when that scope is left by an early
  return or an exception, as the destructor of \<^verbatim>\<open>RCUWriter\<close> does).

  Port counts are \<^verbatim>\<open>uint32_t\<close> in the source. A port set of \<open>2^32\<close> ports does
  not fit in memory, so counts are natural numbers; the one subtraction that can wrap
  (\<^verbatim>\<open>after.get (type) - 1\<close> in \<^verbatim>\<open>remove_port\<close>) is written out modulo \<open>2^32\<close>.
\<close>

datatype DataType = AUDIO | MIDI | NIL

datatype Direction = Input | Output

datatype exn = unknown_type | PortRegistrationFailure | assertion_failed | null_dereference

record ChanCount =
  n_audio :: nat
  n_midi :: nat

text \<open>
  Modelled from the spec: \<^verbatim>\<open>ChanCount\<close> (ardour/chan_count.h is not part of the
  sources at hand), "a per-data-type channel count tuple". \<^verbatim>\<open>NIL\<close> is no index of
  the tuple: reading it gives 0 and writing it changes nothing.
\<close>

definition ZERO :: ChanCount where
  "ZERO = \<lparr>n_audio = 0, n_midi = 0\<rparr>"

definition cc_get :: "ChanCount \<Rightarrow> DataType \<Rightarrow> nat" where
  "cc_get c t = (case t of AUDIO \<Rightarrow> n_audio c | MIDI \<Rightarrow> n_midi c | NIL \<Rightarrow> 0)"

definition cc_set :: "ChanCount \<Rightarrow> DataType \<Rightarrow> nat \<Rightarrow> ChanCount" where
  "cc_set c t n =
     (case t of AUDIO \<Rightarrow> c\<lparr>n_audio := n\<rparr> | MIDI \<Rightarrow> c\<lparr>n_midi := n\<rparr> | NIL \<Rightarrow> c)"

definition cc_max :: "ChanCount \<Rightarrow> ChanCount \<Rightarrow> ChanCount" where
  "cc_max a b = \<lparr>n_audio = max (n_audio a) (n_audio b), n_midi = max (n_midi a) (n_midi b)\<rparr>"

definition n_total :: "ChanCount \<Rightarrow> nat" where
  "n_total c = n_audio c + n_midi c"

record LatencyRange =
  lr_min :: nat
  lr_max :: nat

text \<open>
  Modelled from the spec: \<^verbatim>\<open>Port\<close> (ardour/port.h is not part of the sources at
  hand): "an identity (name, unique within the routing namespace), a type, a direction,
  a connection list to other ports by name, and private/public latency ranges". The
  handle is what the backend hands out at registration; the connected latency ranges
  are what \<^verbatim>\<open>get_connected_latency_range\<close> reports for the port. A
  \<^verbatim>\<open>shared_ptr<Port>\<close> is the port value itself, a null pointer is \<open>None\<close>.
\<close>

record Port =
  port_handle :: nat
  port_name :: string
  port_type :: DataType
  port_is_input :: bool
  port_connections :: "string list"
  private_capture :: LatencyRange
  private_playback :: LatencyRange
  connected_capture :: LatencyRange
  connected_playback :: LatencyRange
  port_pretty_name :: string

definition connected :: "Port \<Rightarrow> bool" where
  "connected p = (port_connections p \<noteq> [])"

definition private_latency_range :: "Port \<Rightarrow> bool \<Rightarrow> LatencyRange" where
  "private_latency_range p playback = (if playback then private_playback p else private_capture p)"

definition get_connected_latency_range :: "Port \<Rightarrow> bool \<Rightarrow> LatencyRange" where
  "get_connected_latency_range p playback =
     (if playback then connected_playback p else connected_capture p)"

definition disconnect_all :: "Port \<Rightarrow> Port" where
  "disconnect_all p = p\<lparr>port_connections := []\<rparr>"

text \<open>
  Modelled from the spec: \<^verbatim>\<open>PortSet\<close> (ardour/port_set.h is not part of the
  sources at hand): "an ordered sequence of Port references, partitioned implicitly by
  type, with a total count (audio count, MIDI count) queryable as a struct-of-counts".
  \<^verbatim>\<open>port (t, i)\<close> is the \<open>i\<close>-th port of type \<open>t\<close>, \<^verbatim>\<open>port (n)\<close> the \<open>n\<close>-th
  port of the sequence; \<^verbatim>\<open>remove\<close> erases the first occurrence and says whether
  there was one.
\<close>

type_synonym PortSet = "Port list"

definition ports_of_type :: "PortSet \<Rightarrow> DataType \<Rightarrow> Port list" where
  "ports_of_type ps t = filter (\<lambda>p. port_type p = t) ps"

definition ps_count :: "PortSet \<Rightarrow> ChanCount" where
  "ps_count ps =
     \<lparr>n_audio = length (ports_of_type ps AUDIO), n_midi = length (ports_of_type ps MIDI)\<rparr>"

definition ps_port :: "PortSet \<Rightarrow> DataType \<Rightarrow> nat \<Rightarrow> Port option" where
  "ps_port ps t i = (if i < length (ports_of_type ps t) then Some (ports_of_type ps t ! i) else None)"

definition ps_add :: "PortSet \<Rightarrow> Port \<Rightarrow> PortSet" where
  "ps_add ps p = ps @ [p]"

definition ps_remove :: "PortSet \<Rightarrow> Port \<Rightarrow> bool \<times> PortSet" where
  "ps_remove ps p = (p \<in> set ps, remove1 p ps)"



text \<open>
  The backend (\<^verbatim>\<open>AudioEngine\<close>, a collaborator outside the sources at hand) is taken
  as a parameter: the sizes it advertises, how it answers a registration (a port, a
  null pointer, or the exception \<^verbatim>\<open>PortRegistrationFailure\<close>), whether it accepts to
  link or unlink two ports, the next handle it hands out and the ports it was asked to
  unregister.
\<close>

datatype reg_answer = Accept | Refuse | Fail

record AudioEngine =
  port_name_size :: nat
  my_name :: string
  registration :: "DataType \<Rightarrow> string \<Rightarrow> reg_answer"
  connection_ok :: "string \<Rightarrow> string \<Rightarrow> bool"
  next_handle :: nat
  unregistered :: "Port list"

definition new_port :: "nat \<Rightarrow> string \<Rightarrow> DataType \<Rightarrow> bool \<Rightarrow> Port" where
  "new_port h nm t inp =
     \<lparr>port_handle = h, port_name = nm, port_type = t, port_is_input = inp,
      port_connections = [],
      private_capture = \<lparr>lr_min = 0, lr_max = 0\<rparr>, private_playback = \<lparr>lr_min = 0, lr_max = 0\<rparr>,
      connected_capture = \<lparr>lr_min = 0, lr_max = 0\<rparr>, connected_playback = \<lparr>lr_min = 0, lr_max = 0\<rparr>,
      port_pretty_name = []\<rparr>"

definition register_port ::
  "AudioEngine \<Rightarrow> bool \<Rightarrow> DataType \<Rightarrow> string \<Rightarrow> (exn + Port option) \<times> AudioEngine" where
  "register_port e inp t nm =
     (case registration e t nm of
        Accept \<Rightarrow> (Inr (Some (new_port (next_handle e) nm t inp)), e\<lparr>next_handle := Suc (next_handle e)\<rparr>)
      | Refuse \<Rightarrow> (Inr None, e)
      | Fail \<Rightarrow> (Inl PortRegistrationFailure, e))"

definition unregister_port :: "AudioEngine \<Rightarrow> Port \<Rightarrow> AudioEngine" where
  "unregister_port e p = e\<lparr>unregistered := unregistered e @ [p]\<rparr>"

definition make_port_name_non_relative :: "AudioEngine \<Rightarrow> string \<Rightarrow> string" where
  "make_port_name_non_relative e nm = my_name e @ '':'' @ nm"

definition port_connect :: "AudioEngine \<Rightarrow> Port \<Rightarrow> string \<Rightarrow> int \<times> Port" where
  "port_connect e p other =
     (if connection_ok e (port_name p) other
      then (0, p\<lparr>port_connections :=
                  (if other \<in> set (port_connections p) then port_connections p
                   else port_connections p @ [other])\<rparr>)
      else (- 1, p))"


text \<open>
  \<^verbatim>\<open>IOChange\<close>: the bitmask over \<^verbatim>\<open>ConfigurationChanged\<close> and
  \<^verbatim>\<open>ConnectionsChanged\<close> (\<^verbatim>\<open>NoChange\<close> is both bits clear) with the counts before
  and after. The signals an IO emits are appended to a log, in the order of emission.
\<close>

record IOChange =
  ConfigurationChanged :: bool
  ConnectionsChanged :: bool
  before :: ChanCount
  after :: ChanCount

definition NoChange :: IOChange where
  "NoChange = \<lparr>ConfigurationChanged = False, ConnectionsChanged = False, before = ZERO, after = ZERO\<rparr>"


datatype Signal = changed IOChange | PortCountChanged ChanCount

text \<open>
  Modelled from the spec: \<^verbatim>\<open>Bundle\<close> (ardour/bundle.h is not part of the sources at
  hand): "an ordered list of (channel-name, type) entries, each bound to a physical port
  name".
\<close>

record Channel =
  ch_name :: string
  ch_type :: DataType
  ch_ports :: "string list"

record Bundle =
  bundle_name :: string
  ports_are_inputs :: bool
  channels :: "Channel list"

text \<open>
  The IO, with the part of the session and of the engine it works on: the slots attached
  to \<^verbatim>\<open>PortCountChanging\<close> (each an \<^verbatim>\<open>int (ChanCount)\<close>), the session's dirty flag
  and its "initial connect or deletion in progress" flag, the answer of
  \<^verbatim>\<open>Session::bundle_by_name\<close> behind \<^verbatim>\<open>find_possible_bundle\<close> (the channel count
  of the bundle found, if any), and the log of emitted signals.
\<close>

record IO =
  io_name :: string
  io_id :: string
  direction :: Direction
  default_type :: DataType
  active :: bool
  sendish :: bool
  ports :: PortSet
  io_bundle :: "Bundle option"
  audio_channel_names :: "string list"
  pretty_name_prefix :: string
  PortCountChanging :: "(ChanCount \<Rightarrow> int) list"
  engine :: AudioEngine
  session_dirty :: bool
  inital_connect_or_deletion_in_progress :: bool
  possible_bundle :: "string \<Rightarrow> ChanCount option"
  emitted :: "Signal list"
  writer_copies :: nat

definition emit :: "Signal \<Rightarrow> IO \<Rightarrow> IO" where
  "emit s io = io\<lparr>emitted := emitted io @ [s]\<rparr>"

definition set_dirty :: "IO \<Rightarrow> IO" where
  "set_dirty io = io\<lparr>session_dirty := True\<rparr>"

definition n_ports :: "IO \<Rightarrow> ChanCount" where
  "n_ports io = ps_count (ports io)"


section \<open>Formatting\<close>

text \<open>
  \<^verbatim>\<open>%u\<close> and \<^verbatim>\<open>%d\<close> of \<^verbatim>\<open>snprintf\<close>, the precision of \<^verbatim>\<open>%.*s\<close> (a negative
  precision is taken as if it were omitted), and the bound of \<^verbatim>\<open>snprintf\<close>: at most
  \<open>size - 1\<close> characters are written. Names are C strings without an embedded NUL.
\<close>

definition digit_char :: "nat \<Rightarrow> char" where
  "digit_char d = ''0123456789'' ! d"

fun fmt_u :: "nat \<Rightarrow> string" where
  "fmt_u n = (if n < 10 then [digit_char n] else fmt_u (n div 10) @ [digit_char (n mod 10)])"

declare fmt_u.simps [simp del]

definition fmt_d :: "int \<Rightarrow> string" where
  "fmt_d k = (if k < 0 then ''-'' @ fmt_u (nat (- k)) else fmt_u (nat k))"

definition precision_s :: "int \<Rightarrow> string \<Rightarrow> string" where
  "precision_s lim s = (if lim < 0 then s else take (nat lim) s)"

definition snprintf :: "nat \<Rightarrow> string \<Rightarrow> string" where
  "snprintf sz s = take (sz - 1) s"

definition to_int32 :: "int \<Rightarrow> int" where
  "to_int32 k = (k + 2 ^ 31) mod 2 ^ 32 - 2 ^ 31"

definition legalize_io_name :: "string \<Rightarrow> string" where
  "legalize_io_name n = map (\<lambda>c. if c = CHR '':'' then CHR ''-'' else c) n"

section \<open>Port names\<close>

text \<open>
  \<^verbatim>\<open>IO::find_port_hole\<close>: the loop over \<open>n = 1, ..., 9998\<close> that stops at the first
  \<open>n\<close> whose name \<^verbatim>\<open>"%s %u"\<close> no port of the set carries, and the value of \<open>n\<close>
  after it.
\<close>

function find_port_hole_from :: "nat \<Rightarrow> PortSet \<Rightarrow> string \<Rightarrow> nat \<Rightarrow> nat" where
  "find_port_hole_from name_size ps base n =
     (if n < 9999
      then (if snprintf name_size (base @ '' '' @ fmt_u n) \<in> set (map port_name ps)
            then find_port_hole_from name_size ps base (n + 1)
            else n)
      else n)"
  by pat_completeness auto
termination
  by (relation "measure (\<lambda>(name_size, ps, base, n). 9999 - n)") auto

declare find_port_hole_from.simps [simp del]

definition find_port_hole :: "IO \<Rightarrow> PortSet \<Rightarrow> string \<Rightarrow> nat" where
  "find_port_hole io ps base =
     (if ps = [] then 1
      else find_port_hole_from ((port_name_size (engine io) + 1) mod 2 ^ 32) ps base 1)"

definition port_suffix :: "IO \<Rightarrow> DataType \<Rightarrow> string" where
  "port_suffix io t =
     (if t = AUDIO then ''audio'' else ''midi'') @
     (if sendish io then (if direction io = Input then ''_return'' else ''_send'')
      else (if direction io = Input then ''_in'' else ''_out''))"

definition build_legal_port_name :: "IO \<Rightarrow> PortSet \<Rightarrow> DataType \<Rightarrow> exn + string" where
  "build_legal_port_name io ps t =
     (if t = NIL then Inl unknown_type
      else
        let suffix = port_suffix io t;
            name_size = port_name_size (engine io);
            limit = to_int32 (int name_size - int (length (my_name (engine io)))
                               - (int (length suffix) + 5));
            name_size' = (name_size + 1) mod 2 ^ 32;
            nom = legalize_io_name (io_name io);
            buf1 = snprintf name_size' (precision_s limit nom @ ''/'' @ suffix);
            port_number = find_port_hole io ps buf1;
            buf2 = snprintf name_size' (buf1 @ '' '' @ fmt_d (int port_number))
        in Inr buf2)"

section \<open>The bundle\<close>

text \<open>
  \<^verbatim>\<open>IO::bundle_channel_name\<close>: the index \<open>c\<close> is a \<^verbatim>\<open>uint32_t\<close>, so \<open>c + 1\<close> is
  taken modulo \<open>2^32\<close>, and \<^verbatim>\<open>%d\<close> prints it as a signed 32-bit number into a
  buffer of 32 characters.
\<close>

definition bundle_channel_name :: "IO \<Rightarrow> nat \<Rightarrow> nat \<Rightarrow> DataType \<Rightarrow> string" where
  "bundle_channel_name io c n t =
     (if t = AUDIO then
        (if n = length (audio_channel_names io) \<and> c < length (audio_channel_names io)
         then audio_channel_names io ! c
         else if n = 1 then ''mono''
         else if n = 2 then (if c = 0 then ''L'' else ''R'')
         else snprintf 32 (fmt_d (to_int32 (int ((c + 1) mod 2 ^ 32)))))
      else snprintf 32 (fmt_d (to_int32 (int ((c + 1) mod 2 ^ 32)))))"

definition bundle_channel :: "IO \<Rightarrow> DataType \<Rightarrow> nat \<Rightarrow> nat \<Rightarrow> Channel" where
  "bundle_channel io t N j =
     \<lparr>ch_name = bundle_channel_name io j N t, ch_type = t,
      ch_ports = (case ps_port (ports io) t j of
                    Some p \<Rightarrow> [make_port_name_non_relative (engine io) (port_name p)]
                  | None \<Rightarrow> [])\<rparr>"

definition bundle_channels :: "IO \<Rightarrow> DataType \<Rightarrow> Channel list" where
  "bundle_channels io t =
     (let N = cc_get (ps_count (ports io)) t in map (bundle_channel io t N) [0..<N])"

definition setup_bundle :: "IO \<Rightarrow> IO" where
  "setup_bundle io =
     io\<lparr>io_bundle := Some
        \<lparr>bundle_name = io_name io @ '' '' @ (if direction io = Input then ''in'' else ''out''),
         ports_are_inputs = (case io_bundle io of None \<Rightarrow> direction io = Input
                             | Some b \<Rightarrow> ports_are_inputs b),
         channels = bundle_channels io AUDIO @ bundle_channels io MIDI\<rparr>\<rparr>"

fun pretty_names :: "string \<Rightarrow> Direction \<Rightarrow> nat \<Rightarrow> Port list \<Rightarrow> Port list" where
  "pretty_names prefix d pn [] = []"
| "pretty_names prefix d pn (p # ps) =
     p\<lparr>port_pretty_name := prefix @ ''/'' @ (if d = Output then ''Out'' else ''In'') @ '' ''
                              @ fmt_u pn\<rparr>
     # pretty_names prefix d (pn + 1) ps"

definition apply_pretty_name :: "IO \<Rightarrow> IO" where
  "apply_pretty_name io =
     (if pretty_name_prefix io = [] then io
      else io\<lparr>ports := pretty_names (pretty_name_prefix io) (direction io) 1 (ports io)\<rparr>)"

definition set_pretty_name :: "IO \<Rightarrow> string \<Rightarrow> IO" where
  "set_pretty_name io str =
     (if pretty_name_prefix io = str then io
      else apply_pretty_name (io\<lparr>pretty_name_prefix := str\<rparr>))"

section \<open>Connecting and disconnecting one port\<close>

text \<open>
  A method called on a port changes that port wherever the set holds it.
  \<^verbatim>\<open>_buffers.attach_buffers\<close> and \<^verbatim>\<open>reestablish_port_subscriptions\<close> touch nothing
  of the state kept here and are left out.
\<close>

definition replace_port :: "PortSet \<Rightarrow> Port \<Rightarrow> Port \<Rightarrow> PortSet" where
  "replace_port ps p p' = map (\<lambda>q. if q = p then p' else q) ps"



section \<open>Adding and removing one port\<close>

definition can_add_port :: "IO \<Rightarrow> DataType \<Rightarrow> bool" where
  "can_add_port io t =
     (case t of NIL \<Rightarrow> False | AUDIO \<Rightarrow> True | MIDI \<Rightarrow> n_midi (ps_count (ports io)) < 1)"

text \<open>
  \<^verbatim>\<open>IO::IntBoolCombiner\<close>: the result is 1 as soon as one slot returned a value
  above 0, and 0 otherwise (also when no slot is attached).
\<close>

definition IntBoolCombiner :: "int list \<Rightarrow> int" where
  "IntBoolCombiner rs = fold (\<lambda>x r. if x > 0 then 1 else r) rs 0"

definition emit_PortCountChanging :: "IO \<Rightarrow> ChanCount \<Rightarrow> int" where
  "emit_PortCountChanging io c = IntBoolCombiner (map (\<lambda>slot. slot c) (PortCountChanging io))"

definition is_NoChange :: "IOChange \<Rightarrow> bool" where
  "is_NoChange c = (\<not> ConfigurationChanged c \<and> \<not> ConnectionsChanged c)"

definition remove_port :: "IO \<Rightarrow> Port \<Rightarrow> int \<times> IO" where
  "remove_port io port =
     (let before' = ps_count (ports io);
          after' = cc_set before' (port_type port)
                     ((cc_get before' (port_type port) + 2 ^ 32 - 1) mod 2 ^ 32)
      in if emit_PortCountChanging io after' \<noteq> 0 then (- 1, io)
         else
           let (removed, p) = ps_remove (ports io) port;
               change = (if removed
                         then \<lparr>ConfigurationChanged = True, ConnectionsChanged = connected port,
                               before = before', after = ps_count p\<rparr>
                         else NoChange);
               io1 = io\<lparr>ports := p, engine := unregister_port (engine io) port,
                         writer_copies := Suc (writer_copies io)\<rparr>;
               io2 = emit (PortCountChanged (n_ports io1)) io1;
               io3 = (if \<not> is_NoChange change then emit (changed change) io2 else io2);
               io4 = (if ConfigurationChanged change then setup_bundle io3 else io3)
           in if is_NoChange change then (- 1, io4) else (0, set_dirty io4))"

definition add_port :: "IO \<Rightarrow> string \<Rightarrow> DataType \<Rightarrow> (exn + int) \<times> IO" where
  "add_port io destination type0 =
     (let type = (if type0 = NIL then default_type io else type0)
      in if \<not> can_add_port io type then (Inr (- 1), io)
         else
           let before' = ps_count (ports io);
               after' = cc_set before' type ((cc_get before' type + 1) mod 2 ^ 32)
           in if emit_PortCountChanging io after' \<noteq> 0 then (Inr (- 1), io)
              else
                let io0 = io\<lparr>writer_copies := Suc (writer_copies io)\<rparr>;
                    p = ports io0
                in case build_legal_port_name io0 p type of
                     Inl x \<Rightarrow> (Inl x, io0)
                   | Inr portname \<Rightarrow>
                       (case register_port (engine io0) (direction io0 = Input) type portname of
                          (Inl x, e) \<Rightarrow> (Inl x, io0\<lparr>engine := e\<rparr>)
                        | (Inr None, e) \<Rightarrow> (Inr (- 1), io0\<lparr>engine := e\<rparr>)
                        | (Inr (Some our_port), e) \<Rightarrow>
                            let p' = ps_add p our_port;
                                change = \<lparr>ConfigurationChanged = True, ConnectionsChanged = False,
                                          before = ps_count p, after = ps_count p'\<rparr>;
                                io1 = io0\<lparr>ports := p', engine := e\<rparr>;
                                io2 = emit (PortCountChanged (n_ports io1)) io1;
                                io3 = emit (changed change) io2;
                                (r, our_port') = (if destination \<noteq> []
                                                  then port_connect (engine io3) our_port destination
                                                  else (0, our_port));
                                io4 = io3\<lparr>ports := replace_port (ports io3) our_port our_port'\<rparr>
                            in if r \<noteq> 0 then (Inr (- 1), io4)
                               else (Inr 0, set_dirty (setup_bundle (apply_pretty_name io4)))))"

section \<open>Matching the port counts to a request\<close>

datatype flow = Continue | Return int | Raise exn

text \<open>
  The two loops of \<^verbatim>\<open>IO::ensure_ports_locked\<close> for one data type, on the writer's
  copy \<open>p\<close>: the ports above the requested count are removed from the highest index
  downward and unregistered, then ports are registered until the count is reached.
\<close>

function remove_unused_ports ::
  "IO \<Rightarrow> PortSet \<Rightarrow> DataType \<Rightarrow> nat \<Rightarrow> nat \<Rightarrow> bool \<Rightarrow> flow \<times> PortSet \<times> IO \<times> bool" where
  "remove_unused_ports io p t n i chg =
     (if i > n then
        (case ps_port p t (i - 1) of
           None \<Rightarrow> (Raise assertion_failed, p, io, chg)
         | Some port \<Rightarrow>
             remove_unused_ports (io\<lparr>engine := unregister_port (engine io) port\<rparr>)
               (snd (ps_remove p port)) t n (i - 1) True)
      else (Continue, p, io, chg))"
  by pat_completeness auto
termination
  by (relation "measure (\<lambda>(io, p, t, n, i, chg). i)") auto

declare remove_unused_ports.simps [simp del]

function create_new_ports ::
  "IO \<Rightarrow> PortSet \<Rightarrow> DataType \<Rightarrow> nat \<Rightarrow> bool \<Rightarrow> flow \<times> PortSet \<times> IO \<times> bool" where
  "create_new_ports io p t n chg =
     (if cc_get (ps_count p) t < n then
        (case build_legal_port_name io p t of
           Inl x \<Rightarrow> (Raise x, p, io, chg)
         | Inr portname \<Rightarrow>
             (case register_port (engine io) (direction io = Input) t portname of
                (Inl x, e) \<Rightarrow> (Raise x, p, io\<lparr>engine := e\<rparr>, chg)
              | (Inr None, e) \<Rightarrow> (Return (- 1), p, io\<lparr>engine := e\<rparr>, chg)
              | (Inr (Some port), e) \<Rightarrow>
                  create_new_ports (io\<lparr>engine := e\<rparr>) (ps_add p port) t n True))
      else (Continue, p, io, chg))"
  by pat_completeness auto
termination
proof (relation "measure (\<lambda>(io, p, t, n, chg). n - cc_get (ps_count p) t)", goal_cases)
  case 1
  show ?case by simp
next
  case (2 io p t n chg portname res e opt port)
  from 2(2) have "t \<noteq> NIL"
    by (auto simp: build_legal_port_name_def split: if_splits)
  moreover from 2 have "port_type port = t"
    by (auto simp: register_port_def new_port_def split: reg_answer.splits)
  ultimately have "cc_get (ps_count (ps_add p port)) t = Suc (cc_get (ps_count p) t)"
    by (cases t) (auto simp: cc_get_def ps_count_def ps_add_def ports_of_type_def)
  with 2(1) show ?case
    by simp
qed

declare create_new_ports.simps [simp del]

definition ensure_type ::
  "IO \<Rightarrow> PortSet \<Rightarrow> DataType \<Rightarrow> ChanCount \<Rightarrow> bool \<Rightarrow> flow \<times> PortSet \<times> IO \<times> bool" where
  "ensure_type io p t count chg =
     (let n = cc_get count t;
          n_ports' = ps_count p
      in case remove_unused_ports io p t n (cc_get n_ports' t) chg of
           (Continue, p', io', chg') \<Rightarrow> create_new_ports io' p' t n chg'
         | stopped \<Rightarrow> stopped)"

fun ensure_types ::
  "IO \<Rightarrow> PortSet \<Rightarrow> DataType list \<Rightarrow> ChanCount \<Rightarrow> bool \<Rightarrow> flow \<times> PortSet \<times> IO \<times> bool" where
  "ensure_types io p [] count chg = (Continue, p, io, chg)"
| "ensure_types io p (t # ts) count chg =
     (case ensure_type io p t count chg of
        (Continue, p', io', chg') \<Rightarrow> ensure_types io' p' ts count chg'
      | stopped \<Rightarrow> stopped)"

definition ensure_ports_locked :: "IO \<Rightarrow> ChanCount \<Rightarrow> bool \<Rightarrow> (exn + int) \<times> bool \<times> IO" where
  "ensure_ports_locked io count clear =
     (case ensure_types (io\<lparr>writer_copies := Suc (writer_copies io)\<rparr>) (ports io)
             [AUDIO, MIDI] count False of
        (Raise x, p, io', chg) \<Rightarrow> (Inl x, chg, io'\<lparr>ports := p\<rparr>)
      | (Return r, p, io', chg) \<Rightarrow> (Inr r, chg, io'\<lparr>ports := p\<rparr>)
      | (Continue, p, io', chg) \<Rightarrow>
          let io1 = io'\<lparr>ports := p\<rparr>;
              io2 = (if chg then set_dirty (emit (PortCountChanged (ps_count (ports io1))) io1)
                     else io1);
              io3 = (if clear then io2\<lparr>ports := map disconnect_all (ports io2)\<rparr> else io2)
          in (Inr 0, chg, io3))"

definition ensure_ports :: "IO \<Rightarrow> ChanCount \<Rightarrow> bool \<Rightarrow> (exn + int) \<times> IO" where
  "ensure_ports io count clear =
     (if count = n_ports io \<and> \<not> clear then (Inr 0, io)
      else
        let before' = ps_count (ports io)
        in case ensure_ports_locked io count clear of
             (Inl x, chg, io') \<Rightarrow> (Inl x, io')
           | (Inr r, chg, io') \<Rightarrow>
               if r \<noteq> 0 then (Inr (- 1), io')
               else if chg then
                 (Inr 0, set_dirty (setup_bundle (emit
                    (changed \<lparr>ConfigurationChanged = True, ConnectionsChanged = False,
                              before = before', after = ps_count (ports io')\<rparr>) io')))
               else (Inr 0, io'))"

definition ensure_io :: "IO \<Rightarrow> ChanCount \<Rightarrow> bool \<Rightarrow> (exn + int) \<times> IO" where
  "ensure_io io count clear = ensure_ports io count clear"

section \<open>Construction\<close>

text \<open>
  \<^verbatim>\<open>IO::IO (Session&, const string&, Direction, DataType, bool)\<close>. The session and
  the engine the IO is created in are the first three arguments.
\<close>

definition IO_new ::
  "AudioEngine \<Rightarrow> bool \<Rightarrow> (string \<Rightarrow> ChanCount option) \<Rightarrow> string \<Rightarrow> Direction \<Rightarrow> DataType \<Rightarrow> bool \<Rightarrow> IO" where
  "IO_new e busy bundles name dir dt sendish' =
     setup_bundle
       \<lparr>io_name = legalize_io_name name, io_id = [], direction = dir, default_type = dt,
        active = True, sendish = sendish', ports = [], io_bundle = None,
        audio_channel_names = [], pretty_name_prefix = [], PortCountChanging = [],
        engine = e, session_dirty = False, inital_connect_or_deletion_in_progress = busy,
        possible_bundle = bundles, emitted = [], writer_copies = 0\<rparr>"

section \<open>Sequences of requests\<close>

text \<open>
  The results of a sequence of \<^verbatim>\<open>ensure_ports\<close> calls, each made on the state the
  call before it left: the return value and the state after every call.
\<close>

fun ensure_ports_trace :: "IO \<Rightarrow> (ChanCount \<times> bool) list \<Rightarrow> ((exn + int) \<times> IO) list" where
  "ensure_ports_trace io [] = []"
| "ensure_ports_trace io (req # reqs) =
     (let r = ensure_ports io (fst req) (snd req) in r # ensure_ports_trace (snd r) reqs)"

section \<open>Latency\<close>

text \<open>
  \<^verbatim>\<open>samplecnt_t\<close> is a signed 64-bit integer and the bounds of a latency range are
  unsigned 32-bit ones; the comparison converts the bound, so nothing wraps.
\<close>

definition latency :: "IO \<Rightarrow> int" where
  "latency io =
     fold (\<lambda>p max_latency.
             let latency' = int (lr_max (private_latency_range p (direction io = Output)))
             in if latency' > max_latency then latency' else max_latency)
          (ports io) 0"

text \<open>
  The first loop of \<^verbatim>\<open>IO::connected_latency\<close>: it stops at the first connected port,
  with the maximum reset to 0.
\<close>

fun private_latency_scan :: "Port list \<Rightarrow> bool \<Rightarrow> int \<Rightarrow> bool \<times> int" where
  "private_latency_scan [] for_playback max_latency = (False, max_latency)"
| "private_latency_scan (p # ps) for_playback max_latency =
     (if connected p then (True, 0)
      else let latency' = int (lr_max (private_latency_range p for_playback))
           in private_latency_scan ps for_playback
                (if latency' > max_latency then latency' else max_latency))"

definition connected_latency :: "IO \<Rightarrow> bool \<Rightarrow> int" where
  "connected_latency io for_playback =
     (let ps = ports io;
          (connected', max_latency) = private_latency_scan ps for_playback 0
      in if connected'
         then fold (\<lambda>p max_latency'.
                      let lr = get_connected_latency_range p for_playback
                      in if int (lr_max lr) > max_latency' then int (lr_max lr) else max_latency')
                   ps max_latency
         else max_latency)"

section \<open>Reading the bundle\<close>

text \<open>
  The number of channels of the IO's bundle and their display names, in order (no
  bundle: no channel).
\<close>

definition bundle_nchannels :: "IO \<Rightarrow> nat" where
  "bundle_nchannels io = (case io_bundle io of None \<Rightarrow> 0 | Some b \<Rightarrow> length (channels b))"

definition bundle_channel_names :: "IO \<Rightarrow> string list" where
  "bundle_channel_names io = (case io_bundle io of None \<Rightarrow> [] | Some b \<Rightarrow> map ch_name (channels b))"

definition bundle_channel_ports :: "IO \<Rightarrow> string list list" where
  "bundle_channel_ports io = (case io_bundle io of None \<Rightarrow> [] | Some b \<Rightarrow> map ch_ports (channels b))"

text \<open>
  The display names of \<open>n\<close> audio channels in the words of the specification:
  "mono" for a single audio channel, "L"/"R" for exactly two, numeric 1-based index
  otherwise.
\<close>

definition spec_audio_channel_names :: "nat \<Rightarrow> string list" where
  "spec_audio_channel_names n =
     (if n = 1 then [''mono''] else if n = 2 then [''L'', ''R'']
      else map (\<lambda>j. fmt_u (j + 1)) [0..<n])"

section \<open>Strings and state nodes\<close>



fun find_from :: "string \<Rightarrow> string \<Rightarrow> nat \<Rightarrow> nat option" where
  "find_from [] pat i = (if pat = [] then Some i else None)"
| "find_from (x # xs) pat i =
     (if take (length pat) (x # xs) = pat then Some i else find_from xs pat (i + 1))"

definition find_str :: "string \<Rightarrow> string \<Rightarrow> nat option" where
  "find_str s pat = find_from s pat 0"


definition replace_str :: "string \<Rightarrow> nat \<Rightarrow> nat \<Rightarrow> string \<Rightarrow> string" where
  "replace_str s pos len r = take pos s @ r @ drop (pos + len) s"

definition count_char :: "string \<Rightarrow> char \<Rightarrow> nat" where
  "count_char s c = length (filter (\<lambda>x. x = c) s)"

text \<open>
  The persisted state is a tree of nodes, each with a name, properties and children
  (\<^verbatim>\<open>XMLNode\<close>, from a library outside the sources at hand). The enumeration
  \<^verbatim>\<open>Direction\<close> is written as \<open>Input\<close> or \<open>Output\<close> and a data type as
  \<open>audio\<close> or \<open>midi\<close>, as the specification says of the attributes \<open>direction\<close>
  and \<open>type\<close>.
\<close>

datatype XMLNode = XMLNode (node_name: string) (node_properties: "(string \<times> string) list")
  (node_children: "XMLNode list")

definition property :: "XMLNode \<Rightarrow> string \<Rightarrow> string option" where
  "property node k = map_of (node_properties node) k"

definition set_property :: "XMLNode \<Rightarrow> string \<Rightarrow> string \<Rightarrow> XMLNode" where
  "set_property node k v =
     XMLNode (node_name node)
       (if k \<in> set (map fst (node_properties node))
        then map (\<lambda>kv. if fst kv = k then (k, v) else kv) (node_properties node)
        else node_properties node @ [(k, v)])
       (node_children node)"

definition Direction_to_string :: "Direction \<Rightarrow> string" where
  "Direction_to_string d = (case d of Input \<Rightarrow> ''Input'' | Output \<Rightarrow> ''Output'')"

definition string_to_Direction :: "string \<Rightarrow> Direction option" where
  "string_to_Direction s =
     (if s = ''Input'' then Some Input else if s = ''Output'' then Some Output else None)"

definition DataType_to_string :: "DataType \<Rightarrow> string" where
  "DataType_to_string t = (case t of AUDIO \<Rightarrow> ''audio'' | MIDI \<Rightarrow> ''midi'' | NIL \<Rightarrow> ''unknown'')"

definition string_to_DataType :: "string \<Rightarrow> DataType" where
  "string_to_DataType s = (if s = ''audio'' then AUDIO else if s = ''midi'' then MIDI else NIL)"

text \<open>
  Modelled from the spec: the state of a port (\<^verbatim>\<open>Port::get_state\<close>,
  \<^verbatim>\<open>Port::set_state\<close> and \<^verbatim>\<open>Port::reconnect\<close> are not part of the sources at hand):
  a node \<open>Port\<close> "carrying that port's own serialized attributes including name and
  type", with one child per connection; setting it stores the names of the connected
  ports, and reconnecting keeps those the backend accepts.
\<close>

definition port_get_state :: "Port \<Rightarrow> XMLNode" where
  "port_get_state p =
     XMLNode ''Port'' [(''name'', port_name p), (''type'', DataType_to_string (port_type p))]
       (map (\<lambda>c. XMLNode ''Connection'' [(''other'', c)] []) (port_connections p))"

definition port_set_state :: "Port \<Rightarrow> XMLNode \<Rightarrow> Port" where
  "port_set_state p node =
     p\<lparr>port_connections :=
          concat (map (\<lambda>c. if node_name c = ''Connection''
                            then (case property c ''other'' of Some o' \<Rightarrow> [o'] | None \<Rightarrow> [])
                            else [])
                      (node_children node))\<rparr>"

definition port_reconnect :: "AudioEngine \<Rightarrow> Port \<Rightarrow> Port" where
  "port_reconnect e p =
     p\<lparr>port_connections := filter (connection_ok e (port_name p)) (port_connections p)\<rparr>"

definition port_by_name :: "IO \<Rightarrow> string \<Rightarrow> Port option" where
  "port_by_name io str = find (\<lambda>p. port_name p = str) (ports io)"

section \<open>Writing the state\<close>

definition state :: "IO \<Rightarrow> XMLNode" where
  "state io =
     XMLNode ''IO''
       ([(''name'', io_name io), (''id'', io_id io),
         (''direction'', Direction_to_string (direction io)),
         (''default-type'', DataType_to_string (default_type io))]
        @ (if pretty_name_prefix io \<noteq> [] then [(''pretty-name'', pretty_name_prefix io)] else []))
       (map port_get_state (ports io))"

definition get_state :: "IO \<Rightarrow> XMLNode" where
  "get_state io = state io"

section \<open>Reading the state\<close>

text \<open>
  \<^verbatim>\<open>IO::set_name\<close>: every port has the old name of the IO replaced by the new one in
  its own name (the assertion is that the old name occurs there), then the IO takes the
  name and the bundle is set up again.
\<close>

fun rename_ports :: "string \<Rightarrow> string \<Rightarrow> Port list \<Rightarrow> exn + Port list" where
  "rename_ports old new [] = Inr []"
| "rename_ports old new (p # ps) =
     (case find_str (port_name p) old of
        None \<Rightarrow> Inl assertion_failed
      | Some pos \<Rightarrow>
          (case rename_ports old new ps of
             Inl x \<Rightarrow> Inl x
           | Inr ps' \<Rightarrow>
               Inr (p\<lparr>port_name := replace_str (port_name p) pos (length old) new\<rparr> # ps')))"

definition set_name :: "IO \<Rightarrow> string \<Rightarrow> exn + IO" where
  "set_name io requested_name =
     (if io_name io = requested_name then Inr io
      else
        let name = legalize_io_name requested_name
        in case rename_ports (io_name io) name (ports io) of
             Inl x \<Rightarrow> Inl x
           | Inr ps \<Rightarrow> Inr (setup_bundle (io\<lparr>ports := ps, io_name := name\<rparr>)))"

text \<open>
  \<^verbatim>\<open>IO::get_port_counts_2X\<close>: the count is worked out once per child of the node, from
  the properties of the node itself, so a node without children gives 0.
\<close>

definition get_port_counts_2X :: "IO \<Rightarrow> XMLNode \<Rightarrow> ChanCount \<Rightarrow> int \<times> ChanCount" where
  "get_port_counts_2X io node n =
     (let n_audio' =
            (if node_children node = [] then 0
             else if property node ''inputs'' \<noteq> None \<and> direction io = Input
               then count_char (the (property node ''inputs'')) CHR ''{''
             else if property node ''input-connection'' \<noteq> None \<and> direction io = Input
               then 1
             else if property node ''outputs'' \<noteq> None \<and> direction io = Output
               then count_char (the (property node ''outputs'')) CHR ''{''
             else if property node ''output-connection'' \<noteq> None \<and> direction io = Output
               then 2
             else 0)
      in (0, cc_max n \<lparr>n_audio = n_audio', n_midi = 0\<rparr>))"

text \<open>
  The loop of \<^verbatim>\<open>IO::get_port_counts\<close> over the children of the node: a child
  \<open>Bundle\<close> ends it, a child \<open>Port\<close> with a type \<open>audio\<close> or \<open>midi\<close> is counted.
\<close>

fun count_port_children ::
  "IO \<Rightarrow> ChanCount \<Rightarrow> XMLNode list \<Rightarrow> ChanCount \<Rightarrow> exn + int \<times> ChanCount" where
  "count_port_children io n [] cnt = Inr (0, cc_max n cnt)"
| "count_port_children io n (c # cs) cnt =
     (if node_name c = ''Bundle'' then
        (case property c ''name'' of
           None \<Rightarrow> Inl null_dereference
         | Some v \<Rightarrow>
             (case possible_bundle io v of
                Some nchannels \<Rightarrow> Inr (0, cc_max n nchannels)
              | None \<Rightarrow> Inr (- 1, n)))
      else if node_name c = ''Port'' then
        (case property c ''type'' of
           None \<Rightarrow> count_port_children io n cs cnt
         | Some v \<Rightarrow>
             if v = ''audio'' then count_port_children io n cs (cnt\<lparr>n_audio := n_audio cnt + 1\<rparr>)
             else if v = ''midi'' then count_port_children io n cs (cnt\<lparr>n_midi := n_midi cnt + 1\<rparr>)
             else count_port_children io n cs cnt)
      else count_port_children io n cs cnt)"

definition get_port_counts :: "IO \<Rightarrow> XMLNode \<Rightarrow> int \<Rightarrow> ChanCount \<Rightarrow> exn + int \<times> ChanCount" where
  "get_port_counts io node version n =
     (if version < 3000 then Inr (get_port_counts_2X io node n)
      else
        let n' = n_ports io
        in case property node ''connection'' of
             Some v \<Rightarrow>
               (case possible_bundle io v of
                  Some nchannels \<Rightarrow> Inr (0, cc_max n' nchannels)
                | None \<Rightarrow> Inr (0, n'))
           | None \<Rightarrow> count_port_children io n' (node_children node) ZERO)"

definition create_ports :: "IO \<Rightarrow> XMLNode \<Rightarrow> int \<Rightarrow> (exn + int) \<times> IO" where
  "create_ports io node version =
     (case get_port_counts io node version ZERO of
        Inl x \<Rightarrow> (Inl x, io)
      | Inr (r, n) \<Rightarrow>
          (case ensure_ports io n (\<not> inital_connect_or_deletion_in_progress io) of
             (Inl x, io') \<Rightarrow> (Inl x, io')
           | (Inr r', io') \<Rightarrow> if r' \<noteq> 0 then (Inr (- 1), io') else (Inr 0, io')))"









text \<open>
  The two loops at the end of \<^verbatim>\<open>IO::set_state\<close>: for a send's output the names in
  the \<open>Port\<close> children are replaced, pairwise, by the names of the ports just
  created; then each \<open>Port\<close> child is applied to the port of its name, if the IO has
  one.
\<close>

definition remove_property :: "XMLNode \<Rightarrow> string \<Rightarrow> XMLNode" where
  "remove_property node k =
     XMLNode (node_name node) (filter (\<lambda>kv. fst kv \<noteq> k) (node_properties node))
       (node_children node)"

fun rename_port_nodes :: "Port list \<Rightarrow> XMLNode list \<Rightarrow> XMLNode list" where
  "rename_port_nodes (p # ps) (x # xs) =
     (if node_name x = ''Port''
      then set_property (remove_property x ''name'') ''name'' (port_name p)
      else x) # rename_port_nodes ps xs"
| "rename_port_nodes ps xs = xs"

fun apply_port_states :: "IO \<Rightarrow> XMLNode list \<Rightarrow> IO" where
  "apply_port_states io [] = io"
| "apply_port_states io (c # cs) =
     apply_port_states
       (if node_name c = ''Port'' then
          (case property c ''name'' of
             None \<Rightarrow> io
           | Some v \<Rightarrow>
               (case port_by_name io v of
                  None \<Rightarrow> io
                | Some p \<Rightarrow>
                    let p1 = port_set_state p c;
                        p2 = (if \<not> inital_connect_or_deletion_in_progress io
                              then port_reconnect (engine io) p1 else p1)
                    in io\<lparr>ports := replace_port (ports io) p p2\<rparr>))
        else io)
       cs"

definition set_default_type :: "IO \<Rightarrow> XMLNode \<Rightarrow> exn + IO" where
  "set_default_type io node =
     (case property node ''default-type'' of
        None \<Rightarrow> Inr io
      | Some v \<Rightarrow>
          if string_to_DataType v = NIL then Inl assertion_failed
          else Inr (io\<lparr>default_type := string_to_DataType v\<rparr>))"

definition set_id :: "IO \<Rightarrow> XMLNode \<Rightarrow> IO" where
  "set_id io node = (case property node ''id'' of None \<Rightarrow> io | Some v \<Rightarrow> io\<lparr>io_id := v\<rparr>)"

definition set_direction :: "IO \<Rightarrow> XMLNode \<Rightarrow> IO" where
  "set_direction io node =
     (case property node ''direction'' of
        None \<Rightarrow> io
      | Some v \<Rightarrow> (case string_to_Direction v of None \<Rightarrow> io | Some d \<Rightarrow> io\<lparr>direction := d\<rparr>))"

definition set_state :: "IO \<Rightarrow> XMLNode \<Rightarrow> int \<Rightarrow> (exn + int) \<times> IO" where
  "set_state io node version =
     (if version < 3000 then (Inl assertion_failed, io)
      else if node_name node \<noteq> ''IO'' then (Inr (- 1), io)
      else
        case (case property node ''name'' of
                Some name \<Rightarrow>
                  if property node ''ignore-name'' = None then set_name io name else Inr io
              | None \<Rightarrow> Inr io) of
          Inl x \<Rightarrow> (Inl x, io)
        | Inr io1 \<Rightarrow>
            (case set_default_type io1 node of
               Inl x \<Rightarrow> (Inl x, io1)
             | Inr io2 \<Rightarrow>
                 (case create_ports (set_direction (set_id io2 node) node) node version of
                    (Inl x, io3) \<Rightarrow> (Inl x, io3)
                  | (Inr r, io3) \<Rightarrow>
                      if r \<noteq> 0 then (Inr (- 1), io3)
                      else
                        let children' =
                              (if sendish io3 \<and> direction io3 = Output
                               then rename_port_nodes (ports io3) (node_children node)
                               else node_children node);
                            io4 = (case property node ''pretty-name'' of
                                     Some name \<Rightarrow> set_pretty_name io3 name
                                   | None \<Rightarrow> io3)
                        in (Inr 0, apply_port_states io4 children'))))"


text \<open>
  \<^verbatim>\<open>IO::IO (Session&, const XMLNode&, DataType, bool)\<close>: an input IO named
  \<open>unnamed io\<close> takes its state from the node, at the version being loaded; what
  \<^verbatim>\<open>set_state\<close> returns is not looked at, an exception leaves no object.
\<close>

definition IO_from_node ::
  "AudioEngine \<Rightarrow> bool \<Rightarrow> (string \<Rightarrow> ChanCount option) \<Rightarrow> XMLNode \<Rightarrow> int \<Rightarrow> DataType \<Rightarrow> bool
     \<Rightarrow> exn + IO" where
  "IO_from_node e busy bundles node loading_state_version dt sendish' =
     (case set_state
             \<lparr>io_name = ''unnamed io'', io_id = [], direction = Input, default_type = dt,
              active = True, sendish = sendish', ports = [], io_bundle = None,
              audio_channel_names = [], pretty_name_prefix = [], PortCountChanging = [],
              engine = e, session_dirty = False, inital_connect_or_deletion_in_progress = busy,
              possible_bundle = bundles, emitted = [], writer_copies = 0\<rparr>
             node loading_state_version of
        (Inl x, io) \<Rightarrow> Inl x
      | (Inr r, io) \<Rightarrow> Inr (setup_bundle io))"

section \<open>Consecutive allocations of names\<close>


text \<open>
  The part of a port name before the number, in the words of the specification: the
  owner name with its colons replaced, cut so that the whole fits "the backend's maximum
  port-name size minus the engine's own name-prefix length and suffix/number overhead",
  then \<open>/\<close> and the suffix for the type and role.
\<close>

definition spec_port_name_base :: "IO \<Rightarrow> DataType \<Rightarrow> string" where
  "spec_port_name_base io t =
     take (port_name_size (engine io) - length (my_name (engine io))
             - (length (port_suffix io t) + 5))
          (legalize_io_name (io_name io))
     @ ''/'' @ port_suffix io t"

section \<open>The legacy connection string\<close>

text \<open>
  The value of the attribute \<open>inputs\<close> (or \<open>outputs\<close>) of the legacy format in the
  words of the specification: "brace-delimited, comma-separated connection-name lists
  (\<open>{a,b},{c}\<close> - each \<open>{...}\<close> group maps to one port in order)", for the groups
  \<open>gs\<close> of names.
\<close>

fun spec_comma_list :: "string list \<Rightarrow> string" where
  "spec_comma_list [] = []"
| "spec_comma_list [x] = x"
| "spec_comma_list (x # y # zs) = x @ '','' @ spec_comma_list (y # zs)"




section \<open>Sample objects\<close>

text \<open>
  A backend that advertises 256 characters for a port name, runs under the client name
  \<open>ardour\<close> and accepts every request; an input IO created in it; a MIDI port and an
  audio port as the backend would hand them out.
\<close>

definition sample_engine :: AudioEngine where
  "sample_engine =
     \<lparr>port_name_size = 256, my_name = ''ardour'', registration = (\<lambda>t nm. Accept),
      connection_ok = (\<lambda>a b. True), next_handle = 0, unregistered = []\<rparr>"

definition sample_io :: IO where
  "sample_io = IO_new sample_engine False (\<lambda>nm. None) ''track'' Input AUDIO False"

definition sample_midi_port :: Port where
  "sample_midi_port = new_port 0 ''track/midi_in 1'' MIDI True"


definition sample_two_port_io :: IO where
  "sample_two_port_io =
     sample_io\<lparr>ports := [new_port 0 ''track/audio_in 1'' AUDIO True,
                          new_port 1 ''track/audio_in 2'' AUDIO True]\<rparr>"



text \<open>
  An IO whose name is 237 characters long, and a port set that holds its audio ports
  numbered 1 to 999.
\<close>

definition sample_long_io :: IO where
  "sample_long_io = IO_new sample_engine False (\<lambda>nm. None) (replicate 237 CHR ''x'') Input AUDIO False"

definition sample_long_ports :: PortSet where
  "sample_long_ports =
     map (\<lambda>k. new_port k (spec_port_name_base sample_long_io AUDIO @ '' '' @ fmt_u k) AUDIO True)
       [1..<1000]"

section \<open>Guards of the single-port operations\<close>

lemma build_legal_port_name_writer_copies [simp]:
  "build_legal_port_name (io\<lparr>writer_copies := k\<rparr>) ps t = build_legal_port_name io ps t"
proof -
  have "port_suffix (io\<lparr>writer_copies := k\<rparr>) t = port_suffix io t"
    by (simp add: port_suffix_def)
  moreover have "find_port_hole (io\<lparr>writer_copies := k\<rparr>) ps b = find_port_hole io ps b" for b
    by (simp add: find_port_hole_def)
  ultimately show ?thesis
    by (simp add: build_legal_port_name_def)
qed

lemma sample_io_sel:
  "engine sample_io = sample_engine" "io_name sample_io = ''track''" "sendish sample_io = False"
  "direction sample_io = Input" "ports sample_io = []" "default_type sample_io = AUDIO"
  "audio_channel_names sample_io = []" "PortCountChanging sample_io = []"
  "pretty_name_prefix sample_io = []" "writer_copies sample_io = 0"
  by (simp_all add: sample_io_def IO_new_def setup_bundle_def legalize_io_name_def)

lemma sample_engine_sel:
  "port_name_size sample_engine = 256" "my_name sample_engine = ''ardour''"
  "registration sample_engine = (\<lambda>t nm. Accept)" "connection_ok sample_engine = (\<lambda>a b. True)"
  "next_handle sample_engine = 0"
  by (simp_all add: sample_engine_def)

lemma fmt_u_digit: "n < 10 \<Longrightarrow> fmt_u n = [digit_char n]"
  by (simp add: fmt_u.simps)

text \<open>
  C6. \<^verbatim>\<open>can_add_port (MIDI)\<close> holds exactly when the IO has no MIDI port; and on an
  IO that has a MIDI port already, \<^verbatim>\<open>add_port\<close> for the type MIDI (asked for by name,
  or through the default type of the IO) returns \<open>-1\<close> and leaves the whole state,
  the port set included, as it was.
\<close>

theorem add_port_midi_cap:
  "(can_add_port io MIDI \<longleftrightarrow> n_midi (n_ports io) = 0) \<and>
   (1 \<le> n_midi (n_ports io) \<and> (t = MIDI \<or> t = NIL \<and> default_type io = MIDI)
      \<longrightarrow> add_port io destination t = (Inr (- 1), io))"
  by (auto simp: can_add_port_def n_ports_def add_port_def)

theorem add_port_midi_cap_witness:
  "1 \<le> n_midi (n_ports (sample_io\<lparr>ports := [sample_midi_port]\<rparr>)) \<and>
   \<not> can_add_port (sample_io\<lparr>ports := [sample_midi_port]\<rparr>) MIDI \<and>
   add_port (sample_io\<lparr>ports := [sample_midi_port]\<rparr>) ''system:midi_capture_1'' MIDI
     = (Inr (- 1), sample_io\<lparr>ports := [sample_midi_port]\<rparr>)"
  using add_port_midi_cap [of "sample_io\<lparr>ports := [sample_midi_port]\<rparr>" MIDI
      "''system:midi_capture_1''"]
  by (simp add: n_ports_def ps_count_def ports_of_type_def sample_midi_port_def new_port_def)



section \<open>Port counts after \<^verbatim>\<open>ensure_ports\<close>\<close>

lemma count_remove1_same:
  "port \<in> set p \<Longrightarrow> port_type port = t \<Longrightarrow>
   Suc (length (ports_of_type (remove1 port p) t)) = length (ports_of_type p t)"
  by (induction p) (auto simp: ports_of_type_def)

lemma count_remove1_other:
  "port_type port \<noteq> t \<Longrightarrow> length (ports_of_type (remove1 port p) t) = length (ports_of_type p t)"
  by (induction p) (auto simp: ports_of_type_def)

lemma ps_port_in_set: "ps_port p t i = Some port \<Longrightarrow> port \<in> set p \<and> port_type port = t"
  unfolding ps_port_def ports_of_type_def
  by (metis (mono_tags, lifting) mem_Collect_eq nth_mem option.distinct(1) option.inject set_filter)

lemma remove_unused_ports_result:
  "i = cc_get (ps_count p) t \<Longrightarrow> t \<noteq> NIL \<Longrightarrow>
   \<exists>p' e chg'. remove_unused_ports io p t n i chg = (Continue, p', io\<lparr>engine := e\<rparr>, chg') \<and>
      cc_get (ps_count p') t = min i n \<and>
      (\<forall>t'. t' \<noteq> t \<longrightarrow> cc_get (ps_count p') t' = cc_get (ps_count p) t') \<and>
      registration e = registration (engine io)"
proof (induction io p t n i chg rule: remove_unused_ports.induct)
  case (1 io p t n i chg)
  show ?case
  proof (cases "i > n")
    case False
    have "io\<lparr>engine := engine io\<rparr> = io" by simp
    with False 1(2) show ?thesis
      by (subst remove_unused_ports.simps) (auto intro!: exI [of _ "engine io"])
  next
    case True
    with 1(2) have "i - 1 < length (ports_of_type p t)"
      using 1(3) by (cases t) (auto simp: cc_get_def ps_count_def)
    then obtain port where port: "ps_port p t (i - 1) = Some port"
      by (simp add: ps_port_def)
    then have mem: "port \<in> set p" "port_type port = t"
      using ps_port_in_set by blast+
    have cnt1: "Suc (cc_get (ps_count (snd (ps_remove p port))) t) = cc_get (ps_count p) t"
      using count_remove1_same [OF mem] 1(3)
      by (cases t) (auto simp: cc_get_def ps_count_def ps_remove_def)
    have cnt2: "cc_get (ps_count (snd (ps_remove p port))) t' = cc_get (ps_count p) t'"
      if "t' \<noteq> t" for t'
      using count_remove1_other [of port t' p] mem(2) that
      by (cases t') (auto simp: cc_get_def ps_count_def ps_remove_def)
    have "i - 1 = cc_get (ps_count (snd (ps_remove p port))) t"
      using cnt1 1(2) by simp
    from 1(1) [OF True port this 1(3)]
    obtain p' e chg' where IH:
      "remove_unused_ports (io\<lparr>engine := unregister_port (engine io) port\<rparr>)
         (snd (ps_remove p port)) t n (i - 1) True = (Continue, p', io\<lparr>engine := e\<rparr>, chg')"
      "cc_get (ps_count p') t = min (i - 1) n"
      "\<forall>t'. t' \<noteq> t \<longrightarrow> cc_get (ps_count p') t' = cc_get (ps_count (snd (ps_remove p port))) t'"
      "registration e = registration (engine io)"
      by (auto simp: unregister_port_def)
    have "remove_unused_ports io p t n i chg = (Continue, p', io\<lparr>engine := e\<rparr>, chg')"
      using True port IH(1) by (subst remove_unused_ports.simps) simp
    moreover have "cc_get (ps_count p') t = min i n"
      using IH(2) True by simp
    moreover have "\<forall>t'. t' \<noteq> t \<longrightarrow> cc_get (ps_count p') t' = cc_get (ps_count p) t'"
      using IH(3) cnt2 by simp
    ultimately show ?thesis
      using IH(4) by blast
  qed
qed


lemma build_legal_port_name_Inr:
  "t \<noteq> NIL \<Longrightarrow> \<exists>nm. build_legal_port_name io p t = Inr nm"
  by (simp add: build_legal_port_name_def Let_def)

lemma count_ps_add:
  "cc_get (ps_count (ps_add p port)) t =
     (if port_type port = t \<and> t \<noteq> NIL then Suc (cc_get (ps_count p) t) else cc_get (ps_count p) t)"
  by (cases t) (auto simp: cc_get_def ps_count_def ps_add_def ports_of_type_def)

lemma create_new_ports_result:
  "registration (engine io) = (\<lambda>t nm. Accept) \<Longrightarrow> t \<noteq> NIL \<Longrightarrow>
   \<exists>p' e chg'. create_new_ports io p t n chg = (Continue, p', io\<lparr>engine := e\<rparr>, chg') \<and>
      cc_get (ps_count p') t = max (cc_get (ps_count p) t) n \<and>
      (\<forall>t'. t' \<noteq> t \<longrightarrow> cc_get (ps_count p') t' = cc_get (ps_count p) t') \<and>
      registration e = registration (engine io)"
proof (induction "n - cc_get (ps_count p) t" arbitrary: p io chg)
  case 0
  have "io\<lparr>engine := engine io\<rparr> = io" by simp
  with 0 show ?case
    by (subst create_new_ports.simps) (auto intro!: exI [of _ "engine io"])
next
  case (Suc k)
  then have less: "cc_get (ps_count p) t < n" by simp
  obtain nm where nm: "build_legal_port_name io p t = Inr nm"
    using build_legal_port_name_Inr [OF Suc.prems(2)] by blast
  define port where "port = new_port (next_handle (engine io)) nm t (direction io = Input)"
  define e1 where "e1 = (engine io)\<lparr>next_handle := Suc (next_handle (engine io))\<rparr>"
  have reg: "register_port (engine io) (direction io = Input) t nm = (Inr (Some port), e1)"
    using Suc.prems(1) by (simp add: register_port_def port_def e1_def)
  have ty: "port_type port = t" by (simp add: port_def new_port_def)
  have k: "k = n - cc_get (ps_count (ps_add p port)) t"
    using Suc.hyps(2) ty Suc.prems(2) by (simp add: count_ps_add)
  have acc: "registration (engine (io\<lparr>engine := e1\<rparr>)) = (\<lambda>t nm. Accept)"
    using Suc.prems(1) by (simp add: e1_def)
  from Suc.hyps(1) [OF k acc Suc.prems(2), of True]
  obtain p' e chg' where IH:
    "create_new_ports (io\<lparr>engine := e1\<rparr>) (ps_add p port) t n True = (Continue, p', io\<lparr>engine := e\<rparr>, chg')"
    "cc_get (ps_count p') t = max (cc_get (ps_count (ps_add p port)) t) n"
    "\<forall>t'. t' \<noteq> t \<longrightarrow> cc_get (ps_count p') t' = cc_get (ps_count (ps_add p port)) t'"
    "registration e = registration (engine (io\<lparr>engine := e1\<rparr>))"
    by auto
  have "create_new_ports io p t n chg = (Continue, p', io\<lparr>engine := e\<rparr>, chg')"
    using less nm reg IH(1) by (subst create_new_ports.simps) simp
  moreover have "cc_get (ps_count p') t = max (cc_get (ps_count p) t) n"
    using IH(2) less ty Suc.prems(2) by (simp add: count_ps_add)
  moreover have "\<forall>t'. t' \<noteq> t \<longrightarrow> cc_get (ps_count p') t' = cc_get (ps_count p) t'"
    using IH(3) ty by (simp add: count_ps_add)
  moreover have "registration e = registration (engine io)"
    using IH(4) by (simp add: e1_def)
  ultimately show ?case by blast
qed

lemma ensure_type_result:
  assumes "registration (engine io) = (\<lambda>t nm. Accept)" "t \<noteq> NIL"
  shows "\<exists>p' e chg'. ensure_type io p t count chg = (Continue, p', io\<lparr>engine := e\<rparr>, chg') \<and>
      cc_get (ps_count p') t = cc_get count t \<and>
      (\<forall>t'. t' \<noteq> t \<longrightarrow> cc_get (ps_count p') t' = cc_get (ps_count p) t') \<and>
      registration e = registration (engine io)"
proof -
  from remove_unused_ports_result [OF refl assms(2), of io p "cc_get count t" chg]
  obtain p1 e1 chg1 where R:
    "remove_unused_ports io p t (cc_get count t) (cc_get (ps_count p) t) chg
       = (Continue, p1, io\<lparr>engine := e1\<rparr>, chg1)"
    "cc_get (ps_count p1) t = min (cc_get (ps_count p) t) (cc_get count t)"
    "\<forall>t'. t' \<noteq> t \<longrightarrow> cc_get (ps_count p1) t' = cc_get (ps_count p) t'"
    "registration e1 = registration (engine io)"
    by blast
  have acc: "registration (engine (io\<lparr>engine := e1\<rparr>)) = (\<lambda>t nm. Accept)"
    using R(4) assms(1) by simp
  from create_new_ports_result [OF acc assms(2), of p1 "cc_get count t" chg1]
  obtain p2 e2 chg2 where C:
    "create_new_ports (io\<lparr>engine := e1\<rparr>) p1 t (cc_get count t) chg1
       = (Continue, p2, io\<lparr>engine := e2\<rparr>, chg2)"
    "cc_get (ps_count p2) t = max (cc_get (ps_count p1) t) (cc_get count t)"
    "\<forall>t'. t' \<noteq> t \<longrightarrow> cc_get (ps_count p2) t' = cc_get (ps_count p1) t'"
    "registration e2 = registration (engine (io\<lparr>engine := e1\<rparr>))"
    by auto
  have "ensure_type io p t count chg = (Continue, p2, io\<lparr>engine := e2\<rparr>, chg2)"
    using R(1) C(1) by (simp add: ensure_type_def)
  moreover have "cc_get (ps_count p2) t = cc_get count t"
    using C(2) R(2) by simp
  moreover have "\<forall>t'. t' \<noteq> t \<longrightarrow> cc_get (ps_count p2) t' = cc_get (ps_count p) t'"
    using C(3) R(3) by simp
  moreover have "registration e2 = registration (engine io)"
    using C(4) R(4) by simp
  ultimately show ?thesis by blast
qed

lemma ensure_types_result:
  assumes "registration (engine io) = (\<lambda>t nm. Accept)"
  shows "\<exists>p' e chg'. ensure_types io p [AUDIO, MIDI] count chg = (Continue, p', io\<lparr>engine := e\<rparr>, chg') \<and>
      ps_count p' = count \<and> registration e = registration (engine io)"
proof -
  from ensure_type_result [OF assms, of AUDIO p count chg]
  obtain p1 e1 chg1 where A:
    "ensure_type io p AUDIO count chg = (Continue, p1, io\<lparr>engine := e1\<rparr>, chg1)"
    "cc_get (ps_count p1) AUDIO = cc_get count AUDIO"
    "registration e1 = registration (engine io)"
    by auto
  have acc: "registration (engine (io\<lparr>engine := e1\<rparr>)) = (\<lambda>t nm. Accept)"
    using A(3) assms by simp
  from ensure_type_result [OF acc, of MIDI p1 count chg1]
  obtain p2 e2 chg2 where M:
    "ensure_type (io\<lparr>engine := e1\<rparr>) p1 MIDI count chg1 = (Continue, p2, io\<lparr>engine := e2\<rparr>, chg2)"
    "cc_get (ps_count p2) MIDI = cc_get count MIDI"
    "\<forall>t'. t' \<noteq> MIDI \<longrightarrow> cc_get (ps_count p2) t' = cc_get (ps_count p1) t'"
    "registration e2 = registration (engine (io\<lparr>engine := e1\<rparr>))"
    by auto
  have "ensure_types io p [AUDIO, MIDI] count chg = (Continue, p2, io\<lparr>engine := e2\<rparr>, chg2)"
    using A(1) M(1) by simp
  moreover have "ps_count p2 = count"
    using A(2) M(2) M(3) by (auto simp: cc_get_def ps_count_def)
  moreover have "registration e2 = registration (engine io)"
    using M(4) A(3) by simp
  ultimately show ?thesis by blast
qed


lemma ps_count_disconnect_all: "ps_count (map disconnect_all ps) = ps_count ps"
  by (induction ps) (auto simp: ps_count_def ports_of_type_def disconnect_all_def)

lemma ensure_ports_locked_result:
  assumes "registration (engine io) = (\<lambda>t nm. Accept)"
  shows "\<exists>chg io'. ensure_ports_locked io count clear = (Inr 0, chg, io') \<and>
      ps_count (ports io') = count \<and> registration (engine io') = registration (engine io) \<and>
      writer_copies io' = Suc (writer_copies io) \<and>
      io'\<lparr>ports := ports io, engine := engine io, session_dirty := session_dirty io,
          emitted := emitted io, writer_copies := writer_copies io\<rparr> = io"
proof -
  let ?io0 = "io\<lparr>writer_copies := Suc (writer_copies io)\<rparr>"
  have acc: "registration (engine ?io0) = (\<lambda>t nm. Accept)"
    using assms by simp
  from ensure_types_result [OF acc, of "ports io" count False]
  obtain p e chg where T:
    "ensure_types ?io0 (ports io) [AUDIO, MIDI] count False = (Continue, p, ?io0\<lparr>engine := e\<rparr>, chg)"
    "ps_count p = count" "registration e = registration (engine io)"
    by auto
  show ?thesis
    unfolding ensure_ports_locked_def T(1)
    using T(2,3)
    by (simp add: Let_def set_dirty_def emit_def ps_count_disconnect_all)
qed

lemma ensure_ports_result:
  assumes "registration (engine io) = (\<lambda>t nm. Accept)"
  shows "\<exists>io'. ensure_ports io count clear = (Inr 0, io') \<and>
      n_ports io' = count \<and> registration (engine io') = registration (engine io) \<and>
      io'\<lparr>ports := ports io, engine := engine io, session_dirty := session_dirty io,
          emitted := emitted io, writer_copies := writer_copies io,
          io_bundle := io_bundle io\<rparr> = io"
proof (cases "count = n_ports io \<and> \<not> clear")
  case True
  then show ?thesis by (simp add: ensure_ports_def)
next
  case False
  from ensure_ports_locked_result [OF assms, of count clear]
  obtain chg io' where L:
    "ensure_ports_locked io count clear = (Inr 0, chg, io')"
    "ps_count (ports io') = count" "registration (engine io') = registration (engine io)"
    "io'\<lparr>ports := ports io, engine := engine io, session_dirty := session_dirty io,
          emitted := emitted io, writer_copies := writer_copies io\<rparr> = io"
    by blast
  have "io'\<lparr>ports := ports io, engine := engine io, session_dirty := session_dirty io,
          emitted := emitted io, writer_copies := writer_copies io,
          io_bundle := io_bundle io\<rparr> = io"
    using arg_cong [OF L(4), of "\<lambda>x. x\<lparr>io_bundle := io_bundle io\<rparr>"] by simp
  with False L(1,2,3) show ?thesis
    by (auto simp: ensure_ports_def n_ports_def set_dirty_def setup_bundle_def emit_def)
qed


text \<open>
  C1. On a backend that accepts every registration, every call of a sequence of
  \<^verbatim>\<open>ensure_ports\<close> calls returns 0 and leaves the port set with exactly the audio
  count and the MIDI count that this call asked for, whatever the calls before it asked
  for. (\<^verbatim>\<open>ensure_ports\<close> does not consult the \<^verbatim>\<open>PortCountChanging\<close> slots, so no
  veto can occur in it.)
\<close>

theorem ensure_ports_trace_counts:
  "registration (engine io) = (\<lambda>t nm. Accept) \<Longrightarrow>
   map (\<lambda>r. (fst r, n_ports (snd r))) (ensure_ports_trace io reqs)
     = map (\<lambda>req. (Inr 0, fst req)) reqs"
proof (induction reqs arbitrary: io)
  case Nil
  show ?case by simp
next
  case (Cons req reqs)
  from ensure_ports_result [OF Cons.prems, of "fst req" "snd req"]
  obtain io' where E: "ensure_ports io (fst req) (snd req) = (Inr 0, io')"
    "n_ports io' = fst req" "registration (engine io') = registration (engine io)"
    by blast
  then have "registration (engine io') = (\<lambda>t nm. Accept)"
    using Cons.prems by simp
  from Cons.IH [OF this] E(1,2) show ?case
    by (simp add: Let_def)
qed

theorem ensure_ports_trace_counts_witness:
  "registration (engine sample_io) = (\<lambda>t nm. Accept) \<and>
   map (\<lambda>r. (fst r, n_ports (snd r)))
     (ensure_ports_trace sample_io
        [(\<lparr>n_audio = 2, n_midi = 0\<rparr>, False), (\<lparr>n_audio = 1, n_midi = 1\<rparr>, True),
         (\<lparr>n_audio = 0, n_midi = 0\<rparr>, False), (\<lparr>n_audio = 0, n_midi = 0\<rparr>, False)])
   = [(Inr 0, \<lparr>n_audio = 2, n_midi = 0\<rparr>), (Inr 0, \<lparr>n_audio = 1, n_midi = 1\<rparr>),
      (Inr 0, \<lparr>n_audio = 0, n_midi = 0\<rparr>), (Inr 0, \<lparr>n_audio = 0, n_midi = 0\<rparr>)]"
proof -
  have acc: "registration (engine sample_io) = (\<lambda>t nm. Accept)"
    by (simp add: sample_io_def IO_new_def setup_bundle_def sample_engine_def)
  let ?reqs = "[(\<lparr>n_audio = 2, n_midi = 0\<rparr>, False), (\<lparr>n_audio = 1, n_midi = 1\<rparr>, True),
         (\<lparr>n_audio = 0, n_midi = 0\<rparr>, False), (\<lparr>n_audio = 0, n_midi = 0\<rparr>, False)]"
  have "map (\<lambda>r. (fst r, n_ports (snd r))) (ensure_ports_trace sample_io ?reqs)
          = map (\<lambda>req. (Inr 0, fst req)) ?reqs"
    by (rule ensure_ports_trace_counts [OF acc])
  also have "map (\<lambda>req. (Inr 0 :: exn + int, fst req)) ?reqs
          = [(Inr 0, \<lparr>n_audio = 2, n_midi = 0\<rparr>), (Inr 0, \<lparr>n_audio = 1, n_midi = 1\<rparr>),
             (Inr 0, \<lparr>n_audio = 0, n_midi = 0\<rparr>), (Inr 0, \<lparr>n_audio = 0, n_midi = 0\<rparr>)]"
    by simp
  finally have res: "map (\<lambda>r. (fst r, n_ports (snd r))) (ensure_ports_trace sample_io ?reqs)
          = [(Inr 0, \<lparr>n_audio = 2, n_midi = 0\<rparr>), (Inr 0, \<lparr>n_audio = 1, n_midi = 1\<rparr>),
             (Inr 0, \<lparr>n_audio = 0, n_midi = 0\<rparr>), (Inr 0, \<lparr>n_audio = 0, n_midi = 0\<rparr>)]" .
  from acc res show ?thesis
    by (rule conjI)
qed

section \<open>Latency of an IO\<close>

lemma Max_insert_max:
  fixes a :: int
  assumes "finite A"
  shows "Max (insert (max a b) A) = Max (insert a (insert b A))"
  using assms by (cases "A = {}") (simp_all add: max.assoc)

lemma fold_max_eq:
  fixes f :: "'a \<Rightarrow> int"
  shows "fold (\<lambda>p m. if f p > m then f p else m) ps m0 = Max (insert m0 (f ` set ps))"
proof (induction ps arbitrary: m0)
  case Nil
  show ?case by simp
next
  case (Cons p ps)
  have "(if f p > m0 then f p else m0) = max m0 (f p)"
    by (simp add: max_def)
  then show ?case
    using Cons.IH [of "max m0 (f p)"] Max_insert_max [of "f ` set ps" m0 "f p"] by simp
qed

lemma private_latency_scan_eq:
  "private_latency_scan ps fp m =
     (if list_ex connected ps then (True, 0)
      else (False, Max (insert m ((\<lambda>p. int (lr_max (private_latency_range p fp))) ` set ps))))"
proof (induction ps arbitrary: m)
  case Nil
  show ?case by simp
next
  case (Cons p ps)
  let ?l = "int (lr_max (private_latency_range p fp))"
  have "(if ?l > m then ?l else m) = max m ?l"
    by (simp add: max_def)
  then show ?case
    using Cons.IH [of "max m ?l"]
      Max_insert_max [of "(\<lambda>p. int (lr_max (private_latency_range p fp))) ` set ps" m ?l]
    by (simp add: Let_def)
qed


text \<open>
  C3. \<^verbatim>\<open>connected_latency (for_playback)\<close>: when at least one port of the IO is
  connected, the result is the greatest upper bound among the connected latency ranges
  of all its ports, and no private latency range enters it; when no port is connected,
  it is the greatest upper bound among the private latency ranges of all ports. An
  empty port set gives 0 (the maximum starts from 0, and no bound is negative).
  \<^verbatim>\<open>latency ()\<close> is the greatest upper bound among the private latency ranges on the
  side of the IO (playback for an output, capture for an input), so that on this side
  and with no port connected the two functions agree.
\<close>

theorem connected_latency_value:
  "connected_latency io for_playback =
     (if list_ex connected (ports io)
      then Max (insert 0 ((\<lambda>p. int (lr_max (get_connected_latency_range p for_playback)))
                            ` set (ports io)))
      else Max (insert 0 ((\<lambda>p. int (lr_max (private_latency_range p for_playback)))
                            ` set (ports io)))) \<and>
   latency io =
     Max (insert 0 ((\<lambda>p. int (lr_max (private_latency_range p (direction io = Output))))
                      ` set (ports io))) \<and>
   connected_latency io (direction io = Output) =
     (if list_ex connected (ports io)
      then Max (insert 0 ((\<lambda>p. int (lr_max (get_connected_latency_range p (direction io = Output))))
                            ` set (ports io)))
      else latency io)"
  by (simp add: connected_latency_def latency_def private_latency_scan_eq fold_max_eq Let_def)

section \<open>When \<^verbatim>\<open>ensure_ports\<close> reports a change\<close>

lemma remove_unused_ports_changed:
  "remove_unused_ports io p t n i chg = (Continue, p', io', chg') \<Longrightarrow> chg' = (chg \<or> n < i)"
proof (induction io p t n i chg rule: remove_unused_ports.induct)
  case (1 io p t n i chg)
  show ?case
  proof (cases "i > n")
    case False
    with 1(2) show ?thesis by (simp add: remove_unused_ports.simps)
  next
    case True
    show ?thesis
    proof (cases "ps_port p t (i - 1)")
      case None
      with True 1(2) show ?thesis by (simp add: remove_unused_ports.simps)
    next
      case (Some port)
      from 1(2) True Some
      have "remove_unused_ports (io\<lparr>engine := unregister_port (engine io) port\<rparr>)
              (snd (ps_remove p port)) t n (i - 1) True = (Continue, p', io', chg')"
        by (simp add: remove_unused_ports.simps)
      from 1(1) [OF True Some this] True show ?thesis by simp
    qed
  qed
qed

lemma create_new_ports_general:
  "create_new_ports io p t n chg = (f, p', io', chg') \<Longrightarrow>
   (f = Continue \<longrightarrow> chg' = (chg \<or> cc_get (ps_count p) t < n)) \<and>
   (\<forall>t'. t' \<noteq> t \<longrightarrow> cc_get (ps_count p') t' = cc_get (ps_count p) t') \<and>
   (\<forall>r. f = Return r \<longrightarrow> r = - 1)"
proof (induction "n - cc_get (ps_count p) t" arbitrary: p io chg)
  case 0
  then show ?case
    by (subst (asm) create_new_ports.simps) auto
next
  case (Suc k)
  then have less: "cc_get (ps_count p) t < n" by simp
  show ?case
  proof (cases "t = NIL")
    case True
    then have "build_legal_port_name io p t = Inl unknown_type"
      by (simp add: build_legal_port_name_def)
    with Suc.prems less show ?thesis
      by (subst (asm) create_new_ports.simps) auto
  next
    case False
    then obtain nm where nm: "build_legal_port_name io p t = Inr nm"
      using build_legal_port_name_Inr by blast
    show ?thesis
    proof (cases "registration (engine io) t nm")
    case Accept
    define port where "port = new_port (next_handle (engine io)) nm t (direction io = Input)"
    define e1 where "e1 = (engine io)\<lparr>next_handle := Suc (next_handle (engine io))\<rparr>"
    have reg: "register_port (engine io) (direction io = Input) t nm = (Inr (Some port), e1)"
      using Accept by (simp add: register_port_def port_def e1_def)
    have ty: "port_type port = t" by (simp add: port_def new_port_def)
    have k: "k = n - cc_get (ps_count (ps_add p port)) t"
      using Suc.hyps(2) ty False by (simp add: count_ps_add)
    have "create_new_ports (io\<lparr>engine := e1\<rparr>) (ps_add p port) t n True = (f, p', io', chg')"
      using Suc.prems less nm reg by (subst (asm) create_new_ports.simps) simp
    from Suc.hyps(1) [OF k this] less ty show ?thesis
      by (simp add: count_ps_add)
  next
    case Refuse
    then have "register_port (engine io) (direction io = Input) t nm = (Inr None, engine io)"
      by (simp add: register_port_def)
    with Suc.prems less nm show ?thesis
      by (subst (asm) create_new_ports.simps) auto
  next
    case Fail
    then have "register_port (engine io) (direction io = Input) t nm
                 = (Inl PortRegistrationFailure, engine io)"
      by (simp add: register_port_def)
    with Suc.prems less nm show ?thesis
      by (subst (asm) create_new_ports.simps) auto
  qed
  qed
qed

lemma ensure_type_changed:
  assumes "ensure_type io p t count chg = (Continue, p', io', chg')" "t \<noteq> NIL"
  shows "chg' = (chg \<or> cc_get (ps_count p) t \<noteq> cc_get count t) \<and>
     (\<forall>t'. t' \<noteq> t \<longrightarrow> cc_get (ps_count p') t' = cc_get (ps_count p) t')"
proof -
  from remove_unused_ports_result [OF refl assms(2), of io p "cc_get count t" chg]
  obtain p1 e1 chg1 where R:
    "remove_unused_ports io p t (cc_get count t) (cc_get (ps_count p) t) chg
       = (Continue, p1, io\<lparr>engine := e1\<rparr>, chg1)"
    "cc_get (ps_count p1) t = min (cc_get (ps_count p) t) (cc_get count t)"
    "\<forall>t'. t' \<noteq> t \<longrightarrow> cc_get (ps_count p1) t' = cc_get (ps_count p) t'"
    by blast
  from remove_unused_ports_changed [OF R(1)]
  have chg1: "chg1 = (chg \<or> cc_get count t < cc_get (ps_count p) t)" .
  from assms(1) R(1)
  have "create_new_ports (io\<lparr>engine := e1\<rparr>) p1 t (cc_get count t) chg1 = (Continue, p', io', chg')"
    by (simp add: ensure_type_def)
  from create_new_ports_general [OF this] R(2,3) chg1 show ?thesis
    by auto
qed

lemma ensure_types_changed:
  assumes "ensure_types io p [AUDIO, MIDI] count chg = (Continue, p', io', chg')"
  shows "chg' = (chg \<or> ps_count p \<noteq> count)"
proof -
  obtain f1 p1 io1 chg1 where A: "ensure_type io p AUDIO count chg = (f1, p1, io1, chg1)"
    by (metis prod_cases4)
  with assms have f1: "f1 = Continue"
    by (cases f1) auto
  obtain f2 p2 io2 chg2 where M: "ensure_type io1 p1 MIDI count chg1 = (f2, p2, io2, chg2)"
    by (metis prod_cases4)
  with assms A f1 have f2: "f2 = Continue" "chg2 = chg'"
    by (cases f2; simp)+
  from ensure_type_changed [OF A [unfolded f1]] ensure_type_changed [OF M [unfolded f2(1)]] f2(2)
  show ?thesis
    by (auto simp: cc_get_def ps_count_def)
qed

section \<open>What the loops leave untouched\<close>

lemma remove_unused_ports_frame:
  "remove_unused_ports io p t n i chg = (f, p', io', chg') \<Longrightarrow> io'\<lparr>engine := engine io\<rparr> = io"
proof (induction io p t n i chg rule: remove_unused_ports.induct)
  case (1 io p t n i chg)
  show ?case
  proof (cases "i > n")
    case False
    with 1(2) show ?thesis by (auto simp: remove_unused_ports.simps)
  next
    case True
    show ?thesis
    proof (cases "ps_port p t (i - 1)")
      case None
      with True 1(2) show ?thesis by (auto simp: remove_unused_ports.simps)
    next
      case (Some port)
      from 1(2) True Some
      have "remove_unused_ports (io\<lparr>engine := unregister_port (engine io) port\<rparr>)
              (snd (ps_remove p port)) t n (i - 1) True = (f, p', io', chg')"
        by (simp add: remove_unused_ports.simps)
      from 1(1) [OF True Some this]
      have "io'\<lparr>engine := unregister_port (engine io) port\<rparr>
              = io\<lparr>engine := unregister_port (engine io) port\<rparr>"
        by simp
      then have "(io'\<lparr>engine := unregister_port (engine io) port\<rparr>)\<lparr>engine := engine io\<rparr>
              = (io\<lparr>engine := unregister_port (engine io) port\<rparr>)\<lparr>engine := engine io\<rparr>"
        by simp
      then show ?thesis by simp
    qed
  qed
qed

lemma create_new_ports_frame:
  "create_new_ports io p t n chg = (f, p', io', chg') \<Longrightarrow> io'\<lparr>engine := engine io\<rparr> = io"
proof (induction "n - cc_get (ps_count p) t" arbitrary: p io chg)
  case 0
  then show ?case
    by (subst (asm) create_new_ports.simps) auto
next
  case (Suc k)
  then have less: "cc_get (ps_count p) t < n" by simp
  show ?case
  proof (cases "build_legal_port_name io p t")
    case (Inl x)
    with Suc.prems less show ?thesis
      by (subst (asm) create_new_ports.simps) auto
  next
    case (Inr nm)
    then have nil: "t \<noteq> NIL"
      by (auto simp: build_legal_port_name_def)
    show ?thesis
    proof (cases "registration (engine io) t nm")
      case Accept
      define port where "port = new_port (next_handle (engine io)) nm t (direction io = Input)"
      define e1 where "e1 = (engine io)\<lparr>next_handle := Suc (next_handle (engine io))\<rparr>"
      have reg: "register_port (engine io) (direction io = Input) t nm = (Inr (Some port), e1)"
        using Accept by (simp add: register_port_def port_def e1_def)
      have ty: "port_type port = t" by (simp add: port_def new_port_def)
      have k: "k = n - cc_get (ps_count (ps_add p port)) t"
        using Suc.hyps(2) ty nil by (simp add: count_ps_add)
      have "create_new_ports (io\<lparr>engine := e1\<rparr>) (ps_add p port) t n True = (f, p', io', chg')"
        using Suc.prems less Inr reg by (subst (asm) create_new_ports.simps) simp
      from Suc.hyps(1) [OF k this]
      have "io'\<lparr>engine := e1\<rparr> = io\<lparr>engine := e1\<rparr>" by simp
      then have "(io'\<lparr>engine := e1\<rparr>)\<lparr>engine := engine io\<rparr> = (io\<lparr>engine := e1\<rparr>)\<lparr>engine := engine io\<rparr>"
        by simp
      then show ?thesis by simp
    next
      case Refuse
      then have "register_port (engine io) (direction io = Input) t nm = (Inr None, engine io)"
        by (simp add: register_port_def)
      with Suc.prems less Inr show ?thesis
        by (subst (asm) create_new_ports.simps) auto
    next
      case Fail
      then have "register_port (engine io) (direction io = Input) t nm
                   = (Inl PortRegistrationFailure, engine io)"
        by (simp add: register_port_def)
      with Suc.prems less Inr show ?thesis
        by (subst (asm) create_new_ports.simps) auto
    qed
  qed
qed

lemma frame_trans:
  "io1\<lparr>engine := engine io\<rparr> = io \<Longrightarrow> io2\<lparr>engine := engine io1\<rparr> = io1
     \<Longrightarrow> io2\<lparr>engine := engine io\<rparr> = (io :: IO)"
  by (metis IO.update_convs(12) IO.surjective)

lemma remove_unused_ports_no_return:
  "remove_unused_ports io p t n i chg = (f, p', io', chg') \<Longrightarrow> f \<noteq> Return r"
proof (induction io p t n i chg rule: remove_unused_ports.induct)
  case (1 io p t n i chg)
  show ?case
  proof (cases "i > n")
    case False
    with 1(2) show ?thesis by (auto simp: remove_unused_ports.simps)
  next
    case True
    show ?thesis
    proof (cases "ps_port p t (i - 1)")
      case None
      with True 1(2) show ?thesis by (auto simp: remove_unused_ports.simps)
    next
      case (Some port)
      from 1(2) True Some
      have "remove_unused_ports (io\<lparr>engine := unregister_port (engine io) port\<rparr>)
              (snd (ps_remove p port)) t n (i - 1) True = (f, p', io', chg')"
        by (simp add: remove_unused_ports.simps)
      from 1(1) [OF True Some this] show ?thesis .
    qed
  qed
qed

lemma ensure_type_general:
  assumes "ensure_type io p t count chg = (f, p', io', chg')"
  shows "io'\<lparr>engine := engine io\<rparr> = io \<and> (\<forall>r. f = Return r \<longrightarrow> r = - 1)"
proof -
  obtain f1 p1 io1 chg1 where R:
    "remove_unused_ports io p t (cc_get count t) (cc_get (ps_count p) t) chg = (f1, p1, io1, chg1)"
    by (metis prod_cases4)
  note fr1 = remove_unused_ports_frame [OF R]
  show ?thesis
  proof (cases "f1 = Continue")
    case True
    with assms R
    have C: "create_new_ports io1 p1 t (cc_get count t) chg1 = (f, p', io', chg')"
      by (simp add: ensure_type_def)
    from frame_trans [OF fr1 create_new_ports_frame [OF C]] create_new_ports_general [OF C]
    show ?thesis by simp
  next
    case False
    with assms R have "(f, p', io', chg') = (f1, p1, io1, chg1)"
      by (cases f1) (auto simp: ensure_type_def)
    with fr1 remove_unused_ports_no_return [OF R] show ?thesis
      by auto
  qed
qed

lemma ensure_types_general:
  assumes "ensure_types io p [AUDIO, MIDI] count chg = (f, p', io', chg')"
  shows "io'\<lparr>engine := engine io\<rparr> = io \<and> (\<forall>r. f = Return r \<longrightarrow> r = - 1)"
proof -
  obtain f1 p1 io1 chg1 where A: "ensure_type io p AUDIO count chg = (f1, p1, io1, chg1)"
    by (metis prod_cases4)
  note g1 = ensure_type_general [OF A]
  show ?thesis
  proof (cases "f1 = Continue")
    case True
    obtain f2 p2 io2 chg2 where M: "ensure_type io1 p1 MIDI count chg1 = (f2, p2, io2, chg2)"
      by (metis prod_cases4)
    note g2 = ensure_type_general [OF M]
    from assms A True M have eq: "f = f2" "io' = io2"
      by (cases f2; simp)+
    have "io2\<lparr>engine := engine io\<rparr> = io"
      by (rule frame_trans [OF conjunct1 [OF g1] conjunct1 [OF g2]])
    with g2 eq show ?thesis
      by simp
  next
    case False
    with assms A have "(f, p', io', chg') = (f1, p1, io1, chg1)"
      by (cases f1) auto
    with g1 show ?thesis by auto
  qed
qed


section \<open>The fast path of \<^verbatim>\<open>ensure_ports\<close>\<close>

text \<open>
  C10. \<^verbatim>\<open>ensure_ports\<close> called with the counts the IO already has and \<^verbatim>\<open>clear\<close>
  false returns 0 and leaves the whole state as it was: the port set, the engine, the
  session's dirty flag, the bundle, the log of emitted signals (no \<^verbatim>\<open>changed\<close>, no
  \<^verbatim>\<open>PortCountChanged\<close>) and the number of writer copies taken of the port set (no
  writer copy is made). Every other call, whatever it returns or throws, takes exactly
  one writer copy, so the return on the fast path is the only way past the writer.
\<close>

theorem ensure_ports_same_count_no_effect:
  "ensure_ports io (n_ports io) False = (Inr 0, io) \<and>
   writer_copies (snd (ensure_ports io count clear)) =
     (if count = n_ports io \<and> \<not> clear then writer_copies io else Suc (writer_copies io))"
proof -
  have fast: "ensure_ports io (n_ports io) False = (Inr 0, io)"
    by (simp add: ensure_ports_def)
  have slow: "writer_copies (snd (ensure_ports io count clear)) = Suc (writer_copies io)"
    if ne: "\<not> (count = n_ports io \<and> \<not> clear)"
  proof -
    let ?io0 = "io\<lparr>writer_copies := Suc (writer_copies io)\<rparr>"
    obtain f p io1 chg where T:
      "ensure_types ?io0 (ports io) [AUDIO, MIDI] count False = (f, p, io1, chg)"
      by (metis prod_cases4)
    from ensure_types_general [OF T] have "io1\<lparr>engine := engine ?io0\<rparr> = ?io0"
      by simp
    from arg_cong [OF this, of writer_copies] have wc: "writer_copies io1 = Suc (writer_copies io)"
      by simp
    show ?thesis
    proof (cases f)
      case Continue
      with T ne wc show ?thesis
        by (simp add: ensure_ports_def ensure_ports_locked_def Let_def set_dirty_def emit_def
            setup_bundle_def)
    next
      case (Return r)
      with T ne wc show ?thesis
        by (simp add: ensure_ports_def ensure_ports_locked_def Let_def set_dirty_def emit_def
            setup_bundle_def)
    next
      case (Raise x)
      with T ne wc show ?thesis
        by (simp add: ensure_ports_def ensure_ports_locked_def)
    qed
  qed
  from fast slow show ?thesis
    by (simp add: ensure_ports_def)
qed

theorem ensure_ports_same_count_no_effect_witness:
  "ensure_ports sample_io \<lparr>n_audio = 0, n_midi = 0\<rparr> False = (Inr 0, sample_io) \<and>
   writer_copies (snd (ensure_ports sample_io \<lparr>n_audio = 0, n_midi = 0\<rparr> False)) = 0 \<and>
   writer_copies (snd (ensure_ports sample_io \<lparr>n_audio = 0, n_midi = 0\<rparr> True)) = 1 \<and>
   writer_copies (snd (ensure_ports sample_io \<lparr>n_audio = 2, n_midi = 0\<rparr> False)) = 1"
proof -
  have n: "n_ports sample_io = \<lparr>n_audio = 0, n_midi = 0\<rparr>"
    by (simp add: n_ports_def sample_io_sel ps_count_def ports_of_type_def)
  from ensure_ports_same_count_no_effect [of sample_io "\<lparr>n_audio = 0, n_midi = 0\<rparr>" False]
    ensure_ports_same_count_no_effect [of sample_io "\<lparr>n_audio = 0, n_midi = 0\<rparr>" True]
    ensure_ports_same_count_no_effect [of sample_io "\<lparr>n_audio = 2, n_midi = 0\<rparr>" False]
  show ?thesis
    by (simp add: n sample_io_sel)
qed

section \<open>The bundle after a change of the port set\<close>

lemma fmt_d_int: "fmt_d (int k) = fmt_u k" "fmt_d (1 + int k) = fmt_u (Suc k)"
proof -
  have "nat (1 + int k) = Suc k" by simp
  then show "fmt_d (int k) = fmt_u k" "fmt_d (1 + int k) = fmt_u (Suc k)"
    by (simp_all add: fmt_d_def)
qed

lemma fmt_u_length_pow: "n < 10 ^ Suc k \<Longrightarrow> length (fmt_u n) \<le> Suc k"
proof (induction k arbitrary: n)
  case 0
  then show ?case by (simp add: fmt_u_digit)
next
  case (Suc k)
  have step: "length (fmt_u n) \<le> Suc (length (fmt_u (n div 10)))"
    by (subst fmt_u.simps) simp
  from Suc.prems have "n div 10 < 10 ^ Suc k"
    by (simp add: less_mult_imp_div_less)
  from Suc.IH [OF this] step show ?case by simp
qed

lemma channel_number:
  assumes "c + 1 < 2147483648"
  shows "snprintf 32 (fmt_d (to_int32 (int ((c + 1) mod 2 ^ 32)))) = fmt_u (c + 1)"
proof -
  from assms have m: "(c + 1) mod 2 ^ 32 = c + 1"
    by simp
  from assms have "to_int32 (int (c + 1)) = int (c + 1)"
    by (simp add: to_int32_def)
  then have d: "fmt_d (to_int32 (int (c + 1))) = fmt_u (c + 1)"
    by (simp only: fmt_d_int)
  from assms have "c + 1 < 10 ^ Suc 9"
    by simp
  from fmt_u_length_pow [OF this] have "length (fmt_u (c + 1)) < 32"
    by simp
  then show ?thesis
    unfolding m d by (simp add: snprintf_def)
qed

text \<open>
  Past \<open>2^31 - 1\<close> channels of one type the printed index is no longer the 1-based
  index: the channel after number 2147483647 is named \<open>-2147483648\<close>, and the one
  at index \<open>2^32 - 1\<close> is named \<open>0\<close>.
\<close>

lemma fmt_u_2147483648: "fmt_u 2147483648 = ''2147483648''"
  by (simp add: fmt_u.simps digit_char_def)

lemma bundle_channel_name_wraps:
  "bundle_channel_name io 2147483647 3 t = ''-2147483648''"
  "bundle_channel_name io 4294967295 3 t = ''0''"
  by (auto simp: bundle_channel_name_def to_int32_def fmt_d_def fmt_u_2147483648 snprintf_def
      fmt_u_digit digit_char_def)

lemma bundle_channels_length: "length (bundle_channels io t) = cc_get (ps_count (ports io)) t"
  by (simp add: bundle_channels_def Let_def)

lemma bundle_channels_ports:
  "t \<noteq> NIL \<Longrightarrow>
   map ch_ports (bundle_channels io t)
     = map (\<lambda>p. [make_port_name_non_relative (engine io) (port_name p)]) (ports_of_type (ports io) t)"
proof -
  assume "t \<noteq> NIL"
  then have len: "cc_get (ps_count (ports io)) t = length (ports_of_type (ports io) t)"
    by (cases t) (simp_all add: cc_get_def ps_count_def)
  have "map ch_ports (bundle_channels io t)
          = map (\<lambda>j. [make_port_name_non_relative (engine io) (port_name (ports_of_type (ports io) t ! j))])
              [0..<length (ports_of_type (ports io) t)]"
    by (simp add: bundle_channels_def Let_def len bundle_channel_def ps_port_def)
  also have "\<dots> = map (\<lambda>p. [make_port_name_non_relative (engine io) (port_name p)])
                     (map (\<lambda>j. ports_of_type (ports io) t ! j) [0..<length (ports_of_type (ports io) t)])"
    by simp
  also have "\<dots> = map (\<lambda>p. [make_port_name_non_relative (engine io) (port_name p)])
                     (ports_of_type (ports io) t)"
    by (simp only: map_nth)
  finally show ?thesis .
qed

lemma bundle_channels_audio_names:
  assumes nm: "audio_channel_names io = []"
    and small: "n_audio (ps_count (ports io)) < 2147483648"
  shows "map ch_name (bundle_channels io AUDIO)
           = spec_audio_channel_names (n_audio (ps_count (ports io)))"
proof -
  let ?N = "n_audio (ps_count (ports io))"
  consider "?N = 1" | "?N = 2" | "?N \<noteq> 1 \<and> ?N \<noteq> 2" by blast
  then show ?thesis
  proof cases
    case 1
    then show ?thesis
      by (simp add: bundle_channels_def Let_def cc_get_def bundle_channel_def bundle_channel_name_def nm
          spec_audio_channel_names_def)
  next
    case 2
    have "[0..<2] = [0, Suc 0]" by (simp add: upt_rec)
    with 2 show ?thesis
      by (simp add: bundle_channels_def Let_def cc_get_def bundle_channel_def bundle_channel_name_def nm
          spec_audio_channel_names_def)
  next
    case 3
    have "map ch_name (bundle_channels io AUDIO)
            = map (\<lambda>j. bundle_channel_name io j ?N AUDIO) [0..<?N]"
      by (simp add: bundle_channels_def Let_def cc_get_def bundle_channel_def)
    also have "\<dots> = map (\<lambda>j. fmt_u (j + 1)) [0..<?N]"
    proof (rule map_cong [OF refl])
      fix j
      assume "j \<in> set [0..<?N]"
      with small have "j + 1 < 2147483648"
        by simp
      from channel_number [OF this] 3 nm
      show "bundle_channel_name io j ?N AUDIO = fmt_u (j + 1)"
        by (simp add: bundle_channel_name_def)
    qed
    finally show ?thesis
      using 3 by (simp add: spec_audio_channel_names_def)
  qed
qed

lemma bundle_channels_midi_names:
  assumes small: "n_midi (ps_count (ports io)) < 2147483648"
  shows "map ch_name (bundle_channels io MIDI)
           = map (\<lambda>j. fmt_u (j + 1)) [0..<n_midi (ps_count (ports io))]"
proof -
  let ?N = "n_midi (ps_count (ports io))"
  have "map ch_name (bundle_channels io MIDI)
          = map (\<lambda>j. bundle_channel_name io j ?N MIDI) [0..<?N]"
    by (simp add: bundle_channels_def Let_def cc_get_def bundle_channel_def)
  also have "\<dots> = map (\<lambda>j. fmt_u (j + 1)) [0..<?N]"
  proof (rule map_cong [OF refl])
    fix j
    assume "j \<in> set [0..<?N]"
    with small have "j + 1 < 2147483648"
      by simp
    from channel_number [OF this]
    show "bundle_channel_name io j ?N MIDI = fmt_u (j + 1)"
      by (simp add: bundle_channel_name_def)
  qed
  finally show ?thesis .
qed

lemma bundle_after_setup:
  assumes "io' = set_dirty (setup_bundle x)"
  shows "bundle_nchannels io' = n_total (n_ports io')"
    and "bundle_channel_ports io' =
           map (\<lambda>p. [make_port_name_non_relative (engine io') (port_name p)])
             (ports_of_type (ports io') AUDIO @ ports_of_type (ports io') MIDI)"
    and "audio_channel_names x = [] \<Longrightarrow>
         n_audio (n_ports io') < 2147483648 \<Longrightarrow> n_midi (n_ports io') < 2147483648 \<Longrightarrow>
         bundle_channel_names io' =
           spec_audio_channel_names (n_audio (n_ports io')) @
           map (\<lambda>j. fmt_u (j + 1)) [0..<n_midi (n_ports io')]"
proof -
  have sel: "ports io' = ports x" "engine io' = engine x"
    "io_bundle io' = io_bundle (setup_bundle x)"
    using assms by (simp_all add: set_dirty_def setup_bundle_def)
  have ch: "channels (the (io_bundle (setup_bundle x)))
              = bundle_channels x AUDIO @ bundle_channels x MIDI"
    by (simp add: setup_bundle_def)
  have some: "io_bundle (setup_bundle x) \<noteq> None"
    by (simp add: setup_bundle_def)
  show "bundle_nchannels io' = n_total (n_ports io')"
    using some ch
    by (auto simp: bundle_nchannels_def sel n_total_def n_ports_def bundle_channels_length cc_get_def)
  show "bundle_channel_ports io' =
           map (\<lambda>p. [make_port_name_non_relative (engine io') (port_name p)])
             (ports_of_type (ports io') AUDIO @ ports_of_type (ports io') MIDI)"
    using some ch
    by (auto simp: bundle_channel_ports_def sel bundle_channels_ports)
  show "bundle_channel_names io' =
           spec_audio_channel_names (n_audio (n_ports io')) @
           map (\<lambda>j. fmt_u (j + 1)) [0..<n_midi (n_ports io')]"
    if "audio_channel_names x = []" "n_audio (n_ports io') < 2147483648"
      "n_midi (n_ports io') < 2147483648"
  proof -
    from that(2,3) have small: "n_audio (ps_count (ports x)) < 2147483648"
      "n_midi (ps_count (ports x)) < 2147483648"
      by (simp_all add: n_ports_def sel)
    from some ch show ?thesis
      by (auto simp: bundle_channel_names_def sel n_ports_def
          bundle_channels_audio_names [OF that(1) small(1)] bundle_channels_midi_names [OF small(2)])
  qed
qed

lemma ensure_ports_changed_shape:
  assumes "ensure_ports io count clear = (Inr 0, io')" "count \<noteq> n_ports io"
  shows "\<exists>x. io' = set_dirty (setup_bundle x) \<and> audio_channel_names x = audio_channel_names io"
proof -
  let ?io0 = "io\<lparr>writer_copies := Suc (writer_copies io)\<rparr>"
  obtain f p io1 chg where T: "ensure_types ?io0 (ports io) [AUDIO, MIDI] count False = (f, p, io1, chg)"
    by (metis prod_cases4)
  note g = ensure_types_general [OF T]
  from g have "audio_channel_names io1 = audio_channel_names ?io0"
    by (metis IO.select_convs(9) IO.surjective IO.update_convs(12))
  then have names: "audio_channel_names io1 = audio_channel_names io"
    by simp
  show ?thesis
  proof (cases f)
    case Continue
    with ensure_types_changed [of ?io0 "ports io" count False p io1 chg] T assms(2)
    have chg: "chg" by (simp add: n_ports_def)
    with assms T Continue names show ?thesis
      by (auto simp: ensure_ports_def ensure_ports_locked_def Let_def emit_def set_dirty_def
          split: if_splits intro!: exI)
  next
    case (Return r)
    with g have "r = - 1" by simp
    with assms T Return show ?thesis
      by (simp add: ensure_ports_def ensure_ports_locked_def)
  next
    case (Raise x)
    with assms T show ?thesis
      by (simp add: ensure_ports_def ensure_ports_locked_def)
  qed
qed

lemma add_port_shape:
  assumes "add_port io destination t = (Inr 0, io')"
  shows "\<exists>x. io' = set_dirty (setup_bundle x) \<and> audio_channel_names x = audio_channel_names io"
  using assms
  by (auto simp: add_port_def Let_def apply_pretty_name_def emit_def
      split: if_splits sum.splits prod.splits option.splits intro!: exI)

lemma remove_port_shape:
  assumes "remove_port io port = (0, io')"
  shows "\<exists>x. io' = set_dirty (setup_bundle x) \<and> audio_channel_names x = audio_channel_names io"
  using assms
  by (auto simp: remove_port_def Let_def emit_def is_NoChange_def NoChange_def
      split: if_splits prod.splits intro!: exI)

lemma sample_first_audio_name: "build_legal_port_name sample_io [] AUDIO = Inr ''track/audio_in 1''"
  unfolding build_legal_port_name_def Let_def sample_io_sel sample_engine_sel port_suffix_def
  by (simp add: to_int32_def snprintf_def precision_s_def find_port_hole_def legalize_io_name_def
      fmt_d_def fmt_u_digit digit_char_def)

lemma sample_add_port_succeeds: "fst (add_port sample_io [] NIL) = Inr 0"
  unfolding add_port_def Let_def sample_io_sel
  by (simp add: can_add_port_def emit_PortCountChanging_def IntBoolCombiner_def sample_io_sel
      sample_first_audio_name register_port_def sample_engine_sel)


text \<open>
  C4. After a successful \<^verbatim>\<open>ensure_ports\<close> that had counts to change, a successful
  \<^verbatim>\<open>add_port\<close> and a successful \<^verbatim>\<open>remove_port\<close>, the bundle of the IO has as many
  channels as the port set has ports; its channels are bound, in order, to the audio
  ports and then the MIDI ports of the set, by their full names; and when the IO has no
  channel names assigned by the user, the audio channels are named \<open>mono\<close> (one audio
  port), \<open>L\<close> then \<open>R\<close> (two), or by their 1-based index (any other number), followed
  by the MIDI channels named by their 1-based index. The index is printed as a signed
  32-bit number, so the names are stated for fewer than \<open>2^31\<close> ports of each type. (An
  \<^verbatim>\<open>ensure_ports\<close> whose counts are those the IO already has does not touch the
  bundle.)
\<close>

theorem bundle_follows_ports:
  assumes "ensure_ports io count clear = (Inr 0, io') \<and> count \<noteq> n_ports io
           \<or> add_port io destination t = (Inr 0, io')
           \<or> remove_port io port = (0, io')"
  shows "bundle_nchannels io' = n_total (n_ports io') \<and>
         bundle_channel_ports io' =
           map (\<lambda>p. [make_port_name_non_relative (engine io') (port_name p)])
             (ports_of_type (ports io') AUDIO @ ports_of_type (ports io') MIDI) \<and>
         (audio_channel_names io = [] \<and>
          n_audio (n_ports io') < 2147483648 \<and> n_midi (n_ports io') < 2147483648 \<longrightarrow>
            bundle_channel_names io' =
              spec_audio_channel_names (n_audio (n_ports io')) @
              map (\<lambda>j. fmt_u (j + 1)) [0..<n_midi (n_ports io')])"
proof -
  from assms obtain x where x: "io' = set_dirty (setup_bundle x)"
    "audio_channel_names x = audio_channel_names io"
    using ensure_ports_changed_shape add_port_shape remove_port_shape by blast
  from bundle_after_setup [OF x(1)] x(2) show ?thesis
    by simp
qed

theorem bundle_follows_ports_witness:
  "fst (add_port sample_io [] NIL) = Inr 0 \<and>
   bundle_nchannels (snd (add_port sample_io [] NIL)) = 1 \<and>
   bundle_channel_names (snd (add_port sample_io [] NIL)) = [''mono''] \<and>
   fst (ensure_ports sample_io \<lparr>n_audio = 2, n_midi = 0\<rparr> False) = Inr 0 \<and>
   bundle_nchannels (snd (ensure_ports sample_io \<lparr>n_audio = 2, n_midi = 0\<rparr> False)) = 2 \<and>
   bundle_channel_names (snd (ensure_ports sample_io \<lparr>n_audio = 2, n_midi = 0\<rparr> False))
     = [''L'', ''R''] \<and>
   fst (ensure_ports sample_io \<lparr>n_audio = 3, n_midi = 2\<rparr> False) = Inr 0 \<and>
   bundle_nchannels (snd (ensure_ports sample_io \<lparr>n_audio = 3, n_midi = 2\<rparr> False)) = 5 \<and>
   bundle_channel_names (snd (ensure_ports sample_io \<lparr>n_audio = 3, n_midi = 2\<rparr> False))
     = [''1'', ''2'', ''3'', ''1'', ''2''] \<and>
   fst (remove_port sample_two_port_io (new_port 0 ''track/audio_in 1'' AUDIO True)) = 0 \<and>
   bundle_nchannels
     (snd (remove_port sample_two_port_io (new_port 0 ''track/audio_in 1'' AUDIO True))) = 1 \<and>
   bundle_channel_names
     (snd (remove_port sample_two_port_io (new_port 0 ''track/audio_in 1'' AUDIO True)))
     = [''mono''] \<and>
   bundle_channel_ports
     (snd (remove_port sample_two_port_io (new_port 0 ''track/audio_in 1'' AUDIO True)))
     = [[''ardour:track/audio_in 2'']]"
proof -
  let ?a = "add_port sample_io [] NIL"
  have sh: "?a = (Inr 0, snd ?a)"
    using sample_add_port_succeeds by (metis prod.collapse)
  have cnt: "n_ports (snd ?a) = \<lparr>n_audio = 1, n_midi = 0\<rparr>"
    unfolding add_port_def Let_def sample_io_sel
    by (simp add: can_add_port_def emit_PortCountChanging_def IntBoolCombiner_def sample_io_sel
      sample_first_audio_name register_port_def sample_engine_sel n_ports_def ps_count_def ports_of_type_def
      ps_add_def new_port_def replace_port_def set_dirty_def setup_bundle_def apply_pretty_name_def emit_def)
  from bundle_follows_ports [of sample_io _ _ "snd ?a" "[]" NIL, OF disjI2, OF disjI1, OF sh]
  have A: "bundle_nchannels (snd ?a) = 1 \<and> bundle_channel_names (snd ?a) = [''mono'']"
    by (simp add: cnt sample_io_sel n_total_def spec_audio_channel_names_def)
  have acc: "registration (engine sample_io) = (\<lambda>t nm. Accept)"
    by (simp add: sample_io_sel sample_engine_sel)
  let ?c = "\<lparr>n_audio = 2, n_midi = 0\<rparr>"
  let ?e = "ensure_ports sample_io ?c False"
  from ensure_ports_result [OF acc, of ?c False]
  have E: "?e = (Inr 0, snd ?e)" "n_ports (snd ?e) = ?c"
    by auto
  have ne: "?c \<noteq> n_ports sample_io"
    by (simp add: n_ports_def sample_io_sel ps_count_def ports_of_type_def)
  from bundle_follows_ports [of sample_io ?c False "snd ?e", OF disjI1, OF conjI, OF E(1) ne]
  have B: "bundle_nchannels (snd ?e) = 2 \<and> bundle_channel_names (snd ?e) = [''L'', ''R'']"
    by (simp add: E(2) sample_io_sel n_total_def spec_audio_channel_names_def)
  let ?c' = "\<lparr>n_audio = 3, n_midi = 2\<rparr>"
  let ?e' = "ensure_ports sample_io ?c' False"
  from ensure_ports_result [OF acc, of ?c' False]
  have E': "?e' = (Inr 0, snd ?e')" "n_ports (snd ?e') = ?c'"
    by auto
  have ne': "?c' \<noteq> n_ports sample_io"
    by (simp add: n_ports_def sample_io_sel ps_count_def ports_of_type_def)
  have upt: "[0..<3] = [0, 1, 2]" "[0..<2] = [0, 1]"
    by (simp_all add: upt_rec)
  from bundle_follows_ports [of sample_io ?c' False "snd ?e'", OF disjI1, OF conjI, OF E'(1) ne']
  have C: "bundle_nchannels (snd ?e') = 5 \<and>
           bundle_channel_names (snd ?e') = [''1'', ''2'', ''3'', ''1'', ''2'']"
    by (simp add: E'(2) sample_io_sel n_total_def spec_audio_channel_names_def upt fmt_u_digit
        digit_char_def)
  let ?p = "new_port 0 ''track/audio_in 1'' AUDIO True"
  let ?r = "remove_port sample_two_port_io ?p"
  have ps2: "ports sample_two_port_io = [?p, new_port 1 ''track/audio_in 2'' AUDIO True]"
    by (simp add: sample_two_port_io_def)
  have sel2: "PortCountChanging sample_two_port_io = []" "audio_channel_names sample_two_port_io = []"
    "engine sample_two_port_io = sample_engine"
    by (simp_all add: sample_two_port_io_def sample_io_sel)
  have R: "?r = (0, snd ?r) \<and> ports (snd ?r) = [new_port 1 ''track/audio_in 2'' AUDIO True] \<and>
           my_name (engine (snd ?r)) = ''ardour''"
    unfolding remove_port_def Let_def ps2
    by (simp add: emit_PortCountChanging_def IntBoolCombiner_def sel2 ps_remove_def is_NoChange_def
        NoChange_def set_dirty_def setup_bundle_def emit_def new_port_def unregister_port_def
        sample_engine_sel)
  have p2: "port_type (new_port h nm ty inp) = ty" "port_name (new_port h nm ty inp) = nm"
    for h nm ty inp
    by (simp_all add: new_port_def)
  from R have rcnt: "n_ports (snd ?r) = \<lparr>n_audio = 1, n_midi = 0\<rparr>"
    by (simp add: n_ports_def ps_count_def ports_of_type_def p2)
  from bundle_follows_ports [of sample_two_port_io _ _ "snd ?r" _ _ ?p, OF disjI2, OF disjI2,
      OF conjunct1 [OF R]]
  have D: "bundle_nchannels (snd ?r) = 1 \<and> bundle_channel_names (snd ?r) = [''mono''] \<and>
           bundle_channel_ports (snd ?r) = [[''ardour:track/audio_in 2'']]"
    using R
    by (simp add: rcnt sel2 n_total_def spec_audio_channel_names_def ports_of_type_def p2
        make_port_name_non_relative_def)
  from A B C D sample_add_port_succeeds E(1) E'(1) R show ?thesis
    by (metis fst_conv)
qed

section \<open>Decoding the connections of the legacy format\<close>




lemma spec_comma_list_Cons:
  "spec_comma_list (x # xs) = x @ (if xs = [] then [] else '','' @ spec_comma_list xs)"
  by (cases xs) simp_all




















text \<open>
  The number of ports a legacy node asks for: the groups of the attribute are counted
  once per child of the node, so a node without children asks for none, and then no
  port is there to be connected.
\<close>

lemma legacy_port_count:
  assumes "version < 3000" "direction io = Input" "property node ''inputs'' = Some s"
  shows "get_port_counts io node version ZERO =
           Inr (0, \<lparr>n_audio = (if node_children node = [] then 0 else count_char s CHR ''{''),
                      n_midi = 0\<rparr>)"
  using assms by (simp add: get_port_counts_def get_port_counts_2X_def cc_max_def ZERO_def)



section \<open>Writing the state and reading it back\<close>

lemma port_get_state_sel:
  "node_name (port_get_state p) = ''Port''"
  "property (port_get_state p) ''type'' = Some (DataType_to_string (port_type p))"
  "property (port_get_state p) ''name'' = Some (port_name p)"
  by (simp_all add: port_get_state_def property_def)

lemma count_port_children_states:
  "count_port_children io n (map port_get_state ps) cnt =
     Inr (0, cc_max n \<lparr>n_audio = n_audio cnt + length (ports_of_type ps AUDIO),
                         n_midi = n_midi cnt + length (ports_of_type ps MIDI)\<rparr>)"
proof (induction ps arbitrary: cnt)
  case Nil
  show ?case by (simp add: ports_of_type_def cc_max_def)
next
  case (Cons p ps)
  show ?case
    by (cases "port_type p")
      (simp_all add: Cons.IH port_get_state_sel DataType_to_string_def ports_of_type_def)
qed

lemma ps_count_map:
  "(\<And>q. port_type (f q) = port_type q) \<Longrightarrow> ps_count (map f ps) = ps_count ps"
  by (induction ps) (auto simp: ps_count_def ports_of_type_def)

lemma ps_count_replace_port:
  "port_type p' = port_type p \<Longrightarrow> ps_count (replace_port ps p p') = ps_count ps"
  unfolding replace_port_def by (rule ps_count_map) simp

lemma ps_count_pretty_names: "ps_count (pretty_names pre d n ps) = ps_count ps"
  by (induction ps arbitrary: n) (auto simp: ps_count_def ports_of_type_def)

lemma apply_port_states_frame:
  "n_ports (apply_port_states io cs) = n_ports io \<and>
   direction (apply_port_states io cs) = direction io \<and>
   pretty_name_prefix (apply_port_states io cs) = pretty_name_prefix io"
proof (induction cs arbitrary: io)
  case Nil
  show ?case by simp
next
  case (Cons c cs)
  let ?io1 = "(if node_name c = ''Port'' then
          (case property c ''name'' of
             None \<Rightarrow> io
           | Some v \<Rightarrow>
               (case port_by_name io v of
                  None \<Rightarrow> io
                | Some p \<Rightarrow>
                    let p1 = port_set_state p c;
                        p2 = (if \<not> inital_connect_or_deletion_in_progress io
                              then port_reconnect (engine io) p1 else p1)
                    in io\<lparr>ports := replace_port (ports io) p p2\<rparr>))
        else io)"
  have "n_ports ?io1 = n_ports io \<and> direction ?io1 = direction io \<and>
        pretty_name_prefix ?io1 = pretty_name_prefix io"
    by (auto simp: n_ports_def Let_def ps_count_replace_port port_set_state_def port_reconnect_def
        split: option.splits)
  with Cons.IH [of ?io1] show ?case
    by simp
qed

lemma set_pretty_name_frame:
  "n_ports (set_pretty_name io s) = n_ports io \<and> direction (set_pretty_name io s) = direction io \<and>
   pretty_name_prefix (set_pretty_name io s) = s"
  by (simp add: set_pretty_name_def apply_pretty_name_def n_ports_def ps_count_pretty_names)


lemma DataType_string_round: "string_to_DataType (DataType_to_string t) = t"
  by (cases t) (simp_all add: string_to_DataType_def DataType_to_string_def)

lemma Direction_string_round: "string_to_Direction (Direction_to_string d) = Some d"
  by (cases d) (simp_all add: string_to_Direction_def Direction_to_string_def)

lemma get_state_sel:
  "node_name (get_state io) = ''IO''"
  "node_children (get_state io) = map port_get_state (ports io)"
  "property (get_state io) ''name'' = Some (io_name io)"
  "property (get_state io) ''ignore-name'' = None"
  "property (get_state io) ''id'' = Some (io_id io)"
  "property (get_state io) ''direction'' = Some (Direction_to_string (direction io))"
  "property (get_state io) ''default-type'' = Some (DataType_to_string (default_type io))"
  "property (get_state io) ''connection'' = None"
  "property (get_state io) ''pretty-name'' =
     (if pretty_name_prefix io \<noteq> [] then Some (pretty_name_prefix io) else None)"
  by (simp_all add: get_state_def state_def property_def)

lemma set_name_no_ports:
  assumes "ports io = []"
  shows "\<exists>io1. set_name io nm = Inr io1 \<and> ports io1 = [] \<and> engine io1 = engine io \<and>
           pretty_name_prefix io1 = pretty_name_prefix io \<and> possible_bundle io1 = possible_bundle io \<and>
           inital_connect_or_deletion_in_progress io1 = inital_connect_or_deletion_in_progress io"
  using assms by (simp add: set_name_def Let_def setup_bundle_def)


text \<open>
  C5. The state written by \<^verbatim>\<open>get_state\<close> for an IO, given to the constructor that
  builds an IO from a node (which reads it with \<^verbatim>\<open>set_state\<close> at the version being
  loaded, here any version from 3000 on), yields an IO with the audio and MIDI port
  counts, the direction and the pretty name of the original. The backend is one that
  accepts every registration, and the default type of the original is a real data type
  (the decoder asserts so).
\<close>

theorem state_round_trip:
  assumes acc: "registration e = (\<lambda>t nm. Accept)" and ver: "3000 \<le> version"
    and dt: "default_type io \<noteq> NIL"
  shows "\<exists>io'. IO_from_node e busy bundles (get_state io) version dt' sendish' = Inr io' \<and>
           n_ports io' = n_ports io \<and> direction io' = direction io \<and>
           pretty_name_prefix io' = pretty_name_prefix io"
proof -
  let ?node = "get_state io"
  define io0 where "io0 =
     \<lparr>io_name = ''unnamed io'', io_id = [], direction = Input, default_type = dt',
      active = True, sendish = sendish', ports = [], io_bundle = None,
      audio_channel_names = [], pretty_name_prefix = [], PortCountChanging = [],
      engine = e, session_dirty = False, inital_connect_or_deletion_in_progress = busy,
      possible_bundle = bundles, emitted = [], writer_copies = 0\<rparr>"
  have io0: "ports io0 = []" "engine io0 = e" "pretty_name_prefix io0 = []"
    by (simp_all add: io0_def)
  from set_name_no_ports [OF io0(1), of "io_name io"]
  obtain io1 where io1: "set_name io0 (io_name io) = Inr io1" "ports io1 = []" "engine io1 = e"
    "pretty_name_prefix io1 = []"
    using io0 by auto
  define io3 where
    "io3 = set_direction (set_id (io1\<lparr>default_type := default_type io\<rparr>) ?node) ?node"
  have dflt: "set_default_type io1 ?node = Inr (io1\<lparr>default_type := default_type io\<rparr>)"
    using dt by (simp add: set_default_type_def get_state_sel DataType_string_round)
  have io3: "ports io3 = []" "engine io3 = e" "pretty_name_prefix io3 = []"
    "direction io3 = direction io"
    using io1 by (simp_all add: io3_def set_direction_def set_id_def get_state_sel
        Direction_string_round)
  have counts: "get_port_counts io3 ?node version ZERO = Inr (0, n_ports io)"
    using ver io3(1)
    by (simp add: get_port_counts_def get_state_sel count_port_children_states n_ports_def
        ps_count_def ports_of_type_def cc_max_def ZERO_def)
  have "registration (engine io3) = (\<lambda>t nm. Accept)"
    using acc io3(2) by simp
  from ensure_ports_result [OF this, of "n_ports io" "\<not> inital_connect_or_deletion_in_progress io3"]
  obtain io4 where io4:
    "ensure_ports io3 (n_ports io) (\<not> inital_connect_or_deletion_in_progress io3) = (Inr 0, io4)"
    "n_ports io4 = n_ports io"
    "io4\<lparr>ports := ports io3, engine := engine io3, session_dirty := session_dirty io3,
          emitted := emitted io3, writer_copies := writer_copies io3,
          io_bundle := io_bundle io3\<rparr> = io3"
    by blast
  have fr4: "direction io4 = direction io3" "pretty_name_prefix io4 = pretty_name_prefix io3"
    using arg_cong [OF io4(3), of direction] arg_cong [OF io4(3), of pretty_name_prefix]
    by simp_all
  have cp: "create_ports io3 ?node version = (Inr 0, io4)"
    by (simp add: create_ports_def counts io4(1))
  define children' where "children' =
     (if sendish io4 \<and> direction io4 = Output
      then rename_port_nodes (ports io4) (node_children ?node) else node_children ?node)"
  define io5 where "io5 = (case property ?node ''pretty-name'' of
                             Some name \<Rightarrow> set_pretty_name io4 name | None \<Rightarrow> io4)"
  have io5: "n_ports io5 = n_ports io" "direction io5 = direction io"
    "pretty_name_prefix io5 = pretty_name_prefix io"
    using io4(2) fr4 io3(3,4) by (simp_all add: io5_def get_state_sel set_pretty_name_frame)
  have "set_state io0 ?node version = (Inr 0, apply_port_states io5 children')"
    using ver
    by (simp add: set_state_def get_state_sel io1(1) dflt cp io3_def [symmetric]
        children'_def io5_def Let_def)
  then have "IO_from_node e busy bundles ?node version dt' sendish'
               = Inr (setup_bundle (apply_port_states io5 children'))"
    by (simp add: IO_from_node_def io0_def)
  moreover have "n_ports (setup_bundle (apply_port_states io5 children')) = n_ports io"
    "direction (setup_bundle (apply_port_states io5 children')) = direction io"
    "pretty_name_prefix (setup_bundle (apply_port_states io5 children')) = pretty_name_prefix io"
    using apply_port_states_frame [of io5 children'] io5
    by (simp_all add: setup_bundle_def n_ports_def)
  ultimately show ?thesis by blast
qed

theorem state_round_trip_witness:
  "registration sample_engine = (\<lambda>t nm. Accept) \<and> (3000 :: int) \<le> 7003 \<and>
   default_type (sample_two_port_io\<lparr>pretty_name_prefix := ''Drums''\<rparr>) \<noteq> NIL \<and>
   (\<exists>io'. IO_from_node sample_engine False (\<lambda>nm. None)
             (get_state (sample_two_port_io\<lparr>pretty_name_prefix := ''Drums''\<rparr>)) 7003 AUDIO False
           = Inr io' \<and>
         n_ports io' = \<lparr>n_audio = 2, n_midi = 0\<rparr> \<and> direction io' = Input \<and>
         pretty_name_prefix io' = ''Drums'')"
proof -
  let ?io = "sample_two_port_io\<lparr>pretty_name_prefix := ''Drums''\<rparr>"
  have h1: "registration sample_engine = (\<lambda>t nm. Accept)"
    by (simp add: sample_engine_sel)
  have h2: "(3000 :: int) \<le> 7003"
    by simp
  have h3: "default_type ?io \<noteq> NIL"
    by (simp add: sample_two_port_io_def sample_io_sel)
  have v: "n_ports ?io = \<lparr>n_audio = 2, n_midi = 0\<rparr>" "direction ?io = Input"
    "pretty_name_prefix ?io = ''Drums''"
    by (simp_all add: sample_two_port_io_def sample_io_sel n_ports_def ps_count_def
        ports_of_type_def new_port_def)
  from state_round_trip [OF h1 h2 h3, of False "\<lambda>nm. None" AUDIO False] h1 h2 h3
  show ?thesis
    unfolding v by blast
qed

section \<open>Names of new ports\<close>

lemma digit_char_inj: "a < 10 \<Longrightarrow> b < 10 \<Longrightarrow> digit_char a = digit_char b \<Longrightarrow> a = b"
proof -
  assume a: "a < 10" and b: "b < 10" and eq: "digit_char a = digit_char b"
  have "distinct ''0123456789''"
    by simp
  moreover from a b have "a < length ''0123456789''" "b < length ''0123456789''"
    by simp_all
  ultimately have "''0123456789'' ! a = ''0123456789'' ! b \<longleftrightarrow> a = b"
    by (rule nth_eq_iff_index_eq)
  with eq show ?thesis
    by (simp add: digit_char_def)
qed

lemma fmt_u_length_pos: "0 < length (fmt_u n)"
  by (subst fmt_u.simps) simp

lemma fmt_u_length_two: "10 \<le> n \<Longrightarrow> 2 \<le> length (fmt_u n)"
  using fmt_u_length_pos [of "n div 10"] by (subst fmt_u.simps) (simp add: Suc_le_eq)

lemma fmt_u_inj: "fmt_u n = fmt_u m \<Longrightarrow> n = m"
proof (induction n arbitrary: m rule: fmt_u.induct)
  case (1 n)
  show ?case
  proof (cases "n < 10")
    case True
    note n = this
    show ?thesis
    proof (cases "m < 10")
      case True
      with n 1(2) show ?thesis
        by (simp add: fmt_u_digit digit_char_inj)
    next
      case False
      then have "2 \<le> length (fmt_u m)" by (simp add: fmt_u_length_two)
      moreover from n have "length (fmt_u n) = 1" by (simp add: fmt_u_digit)
      moreover from 1(2) have "length (fmt_u n) = length (fmt_u m)" by simp
      ultimately show ?thesis by simp
    qed
  next
    case False
    note n = this
    show ?thesis
    proof (cases "m < 10")
      case True
      from n have "2 \<le> length (fmt_u n)" by (simp add: fmt_u_length_two)
      moreover from True have "length (fmt_u m) = 1" by (simp add: fmt_u_digit)
      moreover from 1(2) have "length (fmt_u n) = length (fmt_u m)" by simp
      ultimately show ?thesis by simp
    next
      case False
      from n have en: "fmt_u n = fmt_u (n div 10) @ [digit_char (n mod 10)]"
        by (subst fmt_u.simps) simp
      from False have em: "fmt_u m = fmt_u (m div 10) @ [digit_char (m mod 10)]"
        by (subst fmt_u.simps) simp
      from 1(2) en em have eq: "fmt_u (n div 10) = fmt_u (m div 10)"
        "digit_char (n mod 10) = digit_char (m mod 10)"
        by simp_all
      from 1(1) [OF n eq(1)] have d: "n div 10 = m div 10" .
      from eq(2) have r: "n mod 10 = m mod 10"
        by (intro digit_char_inj) simp_all
      from d r show ?thesis
        by (metis div_mult_mod_eq)
    qed
  qed
qed

lemma fmt_u_length_le:
  "n < 10 \<Longrightarrow> length (fmt_u n) = 1"
  "n < 100 \<Longrightarrow> length (fmt_u n) \<le> 2"
  "n < 1000 \<Longrightarrow> length (fmt_u n) \<le> 3"
  "n < 10000 \<Longrightarrow> length (fmt_u n) \<le> 4"
proof -
  show 1: "length (fmt_u n) = 1" if "n < 10" for n
    using that by (simp add: fmt_u_digit)
  have step: "length (fmt_u n) \<le> Suc (length (fmt_u (n div 10)))" for n
    by (subst fmt_u.simps) simp
  show 2: "length (fmt_u n) \<le> 2" if "n < 100" for n
  proof -
    from that have "n div 10 < 10" by simp
    from 1 [OF this] step [of n] show ?thesis by simp
  qed
  show 3: "length (fmt_u n) \<le> 3" if "n < 1000" for n
  proof -
    from that have "n div 10 < 100" by simp
    from 2 [OF this] step [of n] show ?thesis by simp
  qed
  show "length (fmt_u n) \<le> 4" if "n < 10000"
  proof -
    from that have "n div 10 < 1000" by simp
    from 3 [OF this] step [of n] show ?thesis by simp
  qed
qed

lemma fmt_u_length_four: "1000 \<le> n \<Longrightarrow> n < 10000 \<Longrightarrow> length (fmt_u n) = 4"
proof -
  assume lo: "1000 \<le> n" and hi: "n < 10000"
  have step: "length (fmt_u n) = Suc (length (fmt_u (n div 10)))" if "10 \<le> n" for n
    using that by (subst fmt_u.simps) simp
  from lo hi have a: "10 \<le> n" "10 \<le> n div 10" "10 \<le> n div 10 div 10" "n div 10 div 10 div 10 < 10"
    by simp_all
  show ?thesis
    by (simp add: step [OF a(1)] step [OF a(2)] step [OF a(3)] fmt_u_length_le(1) [OF a(4)])
qed

lemma find_port_hole_from_spec:
  "n \<le> 9999 \<Longrightarrow>
   n \<le> find_port_hole_from sz ps base n \<and> find_port_hole_from sz ps base n \<le> 9999 \<and>
   (\<forall>k. n \<le> k \<and> k < find_port_hole_from sz ps base n
        \<longrightarrow> snprintf sz (base @ '' '' @ fmt_u k) \<in> set (map port_name ps)) \<and>
   (find_port_hole_from sz ps base n < 9999
        \<longrightarrow> snprintf sz (base @ '' '' @ fmt_u (find_port_hole_from sz ps base n))
              \<notin> set (map port_name ps))"
proof (induction sz ps base n rule: find_port_hole_from.induct)
  case (1 sz ps base n)
  let ?nm = "\<lambda>k. snprintf sz (base @ '' '' @ fmt_u k)"
  show ?case
  proof (cases "n < 9999 \<and> ?nm n \<in> set (map port_name ps)")
    case True
    then have eq: "find_port_hole_from sz ps base n = find_port_hole_from sz ps base (n + 1)"
      by (subst find_port_hole_from.simps) simp
    let ?r = "find_port_hole_from sz ps base (n + 1)"
    from True have "n + 1 \<le> 9999" by simp
    from 1(1) [OF conjunct1 [OF True] conjunct2 [OF True] this]
    have IH: "n + 1 \<le> ?r" "?r \<le> 9999"
      "\<forall>k. n + 1 \<le> k \<and> k < ?r \<longrightarrow> ?nm k \<in> set (map port_name ps)"
      "?r < 9999 \<longrightarrow> ?nm ?r \<notin> set (map port_name ps)"
      by blast+
    have "?nm k \<in> set (map port_name ps)" if "n \<le> k" "k < ?r" for k
    proof (cases "k = n")
      case True
      with \<open>n < 9999 \<and> ?nm n \<in> set (map port_name ps)\<close> show ?thesis by simp
    next
      case False
      with that have "n + 1 \<le> k" by simp
      with IH(3) that(2) show ?thesis by blast
    qed
    with IH show ?thesis
      unfolding eq by auto
  next
    case False
    then have "find_port_hole_from sz ps base n = n"
      by (subst find_port_hole_from.simps) auto
    with False 1(2) show ?thesis by auto
  qed
qed

lemma to_int32_id: "0 \<le> k \<Longrightarrow> k < 2 ^ 31 \<Longrightarrow> to_int32 k = k"
  by (simp add: to_int32_def)

lemma snprintf_id: "length s < sz \<Longrightarrow> snprintf sz s = s"
  by (simp add: snprintf_def)

lemma spec_port_name_base_length:
  assumes "length (my_name (engine io)) + length (port_suffix io t) + 5 \<le> port_name_size (engine io)"
  shows "length (spec_port_name_base io t) + 4 + length (my_name (engine io))
           \<le> port_name_size (engine io)"
  using assms by (simp add: spec_port_name_base_def)

lemma build_legal_port_name_normal:
  assumes nil: "t \<noteq> NIL"
    and room: "length (my_name (engine io)) + length (port_suffix io t) + 5 \<le> port_name_size (engine io)"
    and small: "port_name_size (engine io) < 2 ^ 31"
    and client: "1 \<le> length (my_name (engine io))"
  shows "build_legal_port_name io ps t =
           Inr (spec_port_name_base io t @ '' '' @ fmt_u (find_port_hole io ps (spec_port_name_base io t)))"
    and "1 \<le> find_port_hole io ps (spec_port_name_base io t)"
    and "find_port_hole io ps (spec_port_name_base io t) \<le> 9999"
    and "\<forall>k. 1 \<le> k \<and> k < find_port_hole io ps (spec_port_name_base io t)
           \<longrightarrow> spec_port_name_base io t @ '' '' @ fmt_u k \<in> set (map port_name ps)"
    and "find_port_hole io ps (spec_port_name_base io t) < 9999
           \<longrightarrow> spec_port_name_base io t @ '' '' @ fmt_u (find_port_hole io ps (spec_port_name_base io t))
                 \<notin> set (map port_name ps)"
proof -
  let ?S = "port_name_size (engine io)"
  let ?M = "length (my_name (engine io))"
  let ?L = "length (port_suffix io t)"
  let ?base = "spec_port_name_base io t"
  let ?n = "find_port_hole io ps ?base"
  have lim: "to_int32 (int ?S - int ?M - (int ?L + 5)) = int (?S - ?M - (?L + 5))"
  proof -
    have "int ?S - int ?M - (int ?L + 5) = int (?S - ?M - (?L + 5))"
      using room by (simp add: of_nat_diff)
    moreover have "?S - ?M - (?L + 5) < 2147483648"
      using small by simp
    then have "int (?S - ?M - (?L + 5)) < 2 ^ 31"
      by simp
    ultimately show ?thesis
      by (simp only: to_int32_id of_nat_0_le_iff)
  qed
  have sz: "(?S + 1) mod 2 ^ 32 = ?S + 1"
    using small by simp
  have blen: "length ?base + 4 + ?M \<le> ?S"
    by (rule spec_port_name_base_length [OF room])
  have buf1: "snprintf (?S + 1) (precision_s (int (?S - ?M - (?L + 5))) (legalize_io_name (io_name io))
                 @ ''/'' @ port_suffix io t) = ?base"
  proof -
    have "precision_s (int (?S - ?M - (?L + 5))) (legalize_io_name (io_name io)) @ ''/'' @ port_suffix io t
            = ?base"
      by (simp add: precision_s_def spec_port_name_base_def)
    moreover have "length ?base < ?S + 1"
      using blen by simp
    ultimately show ?thesis
      by (simp add: snprintf_id)
  qed
  have full: "snprintf (?S + 1) (?base @ '' '' @ fmt_u k) = ?base @ '' '' @ fmt_u k" if "k \<le> 9999" for k
  proof -
    from that have "length (fmt_u k) \<le> 4"
      by (intro fmt_u_length_le(4)) simp
    with blen client have "length (?base @ '' '' @ fmt_u k) < ?S + 1"
      by simp
    then show ?thesis by (rule snprintf_id)
  qed
  have n: "1 \<le> ?n \<and> ?n \<le> 9999 \<and>
      (\<forall>k. 1 \<le> k \<and> k < ?n \<longrightarrow> ?base @ '' '' @ fmt_u k \<in> set (map port_name ps)) \<and>
      (?n < 9999 \<longrightarrow> ?base @ '' '' @ fmt_u ?n \<notin> set (map port_name ps))"
  proof (cases "ps = []")
    case True
    then show ?thesis by (simp add: find_port_hole_def)
  next
    case False
    then have eq: "?n = find_port_hole_from (?S + 1) ps ?base 1"
      unfolding find_port_hole_def sz by simp
    from find_port_hole_from_spec [of 1 "?S + 1" ps ?base]
    have sp: "1 \<le> ?n" "?n \<le> 9999"
      "\<forall>k. 1 \<le> k \<and> k < ?n \<longrightarrow> snprintf (?S + 1) (?base @ '' '' @ fmt_u k) \<in> set (map port_name ps)"
      "?n < 9999 \<longrightarrow> snprintf (?S + 1) (?base @ '' '' @ fmt_u ?n) \<notin> set (map port_name ps)"
      unfolding eq by simp_all
    have "?base @ '' '' @ fmt_u k \<in> set (map port_name ps)" if "1 \<le> k" "k < ?n" for k
    proof -
      from that sp(2) have "k \<le> 9999" by simp
      from full [OF this] sp(3) that show ?thesis by metis
    qed
    moreover have "?n < 9999 \<longrightarrow> ?base @ '' '' @ fmt_u ?n \<notin> set (map port_name ps)"
      using sp(4) full [OF sp(2)] by simp
    ultimately show ?thesis
      using sp(1,2) by blast
  qed
  then show "1 \<le> ?n" "?n \<le> 9999"
    "\<forall>k. 1 \<le> k \<and> k < ?n \<longrightarrow> ?base @ '' '' @ fmt_u k \<in> set (map port_name ps)"
    "?n < 9999 \<longrightarrow> ?base @ '' '' @ fmt_u ?n \<notin> set (map port_name ps)"
    by blast+
  from n have n9: "?n \<le> 9999" by blast
  show "build_legal_port_name io ps t = Inr (?base @ '' '' @ fmt_u ?n)"
    unfolding build_legal_port_name_def Let_def lim sz buf1 fmt_d_int full [OF n9]
    using nil by simp
qed







lemma fmt_u_9999: "fmt_u 9999 = ''9999''" "fmt_u 1000 = ''1000''"
  by (simp_all add: fmt_u.simps digit_char_def)










text \<open>
  With a number of four digits and an owner name that fills the room left for it, the
  name is one character longer than the port-name size less the length of the client
  name: the room is worked out with 5 characters for the slash, the space and the
  number, which is one short of a slash, a space and four digits.
\<close>

lemma sample_long_io_sel:
  "engine sample_long_io = sample_engine" "io_name sample_long_io = replicate 237 CHR ''x''"
  "sendish sample_long_io = False" "direction sample_long_io = Input"
  by (simp_all add: sample_long_io_def IO_new_def setup_bundle_def legalize_io_name_def)

lemma sample_long_room:
  "AUDIO \<noteq> NIL"
  "length (my_name (engine sample_long_io)) + length (port_suffix sample_long_io AUDIO) + 5
     \<le> port_name_size (engine sample_long_io)"
  "port_name_size (engine sample_long_io) < 2 ^ 31"
  "1 \<le> length (my_name (engine sample_long_io))"
  by (simp_all add: sample_long_io_sel sample_engine_sel port_suffix_def)

lemma sample_long_base_length: "length (spec_port_name_base sample_long_io AUDIO) = 246"
  by (simp add: spec_port_name_base_def sample_long_io_sel sample_engine_sel port_suffix_def
      legalize_io_name_def)

lemma four_digit_name_length:
  "\<exists>nm. build_legal_port_name sample_long_io sample_long_ports AUDIO = Inr nm \<and>
        length nm = 251 \<and>
        port_name_size (engine sample_long_io) - length (my_name (engine sample_long_io)) = 250"
proof -
  let ?base = "spec_port_name_base sample_long_io AUDIO"
  let ?nm = "\<lambda>k. ?base @ '' '' @ fmt_u k"
  let ?n = "find_port_hole sample_long_io sample_long_ports ?base"
  have names: "set (map port_name sample_long_ports) = ?nm ` {1..<1000}"
    by (simp add: sample_long_ports_def new_port_def comp_def image_image)
  note nf = build_legal_port_name_normal [OF sample_long_room, of sample_long_ports]
  have inj: "?nm k \<in> ?nm ` {1..<1000} \<longleftrightarrow> 1 \<le> k \<and> k < 1000" for k
    by (auto dest: fmt_u_inj)
  have lo: "1000 \<le> ?n"
  proof (rule ccontr)
    assume "\<not> 1000 \<le> ?n"
    then have lt: "?n < 1000" by simp
    with nf(2) have "?nm ?n \<in> set (map port_name sample_long_ports)"
      unfolding names inj by simp
    with nf(5) lt show False by simp
  qed
  have hi: "?n \<le> 1000"
  proof (rule ccontr)
    assume "\<not> ?n \<le> 1000"
    then have "1 \<le> (1000 :: nat) \<and> 1000 < ?n" by simp
    with nf(4) have "?nm 1000 \<in> set (map port_name sample_long_ports)" by blast
    then show False
      unfolding names inj by simp
  qed
  from lo hi have n: "?n = 1000" by simp
  have "length (?nm 1000) = 251"
    by (simp add: sample_long_base_length fmt_u_9999)
  moreover have "port_name_size (engine sample_long_io) - length (my_name (engine sample_long_io)) = 250"
    by (simp add: sample_long_io_sel sample_engine_sel)
  ultimately show ?thesis
    using nf(1) n by simp
qed

section \<open>The pre-check before a port is added or removed\<close>

text \<open>
  What the combiner makes of the slots' answers, and what an answer above 0 does: both
  operations return \<open>-1\<close> with the state untouched (no call of the backend, no
  change of the port set, no signal).
\<close>

lemma fold_combiner:
  "fold (\<lambda>x r. if x > 0 then 1 else r) rs r0 = (if \<exists>x\<in>set rs. (0 :: int) < x then 1 else (r0 :: int))"
  by (induction rs arbitrary: r0) auto

lemma IntBoolCombiner_eq: "IntBoolCombiner rs = (if \<exists>x\<in>set rs. 0 < x then 1 else 0)"
  by (simp add: IntBoolCombiner_def fold_combiner)

lemma positive_veto_aborts:
  assumes "\<exists>slot\<in>set (PortCountChanging io). \<forall>c. 0 < slot c"
  shows "add_port io destination t = (Inr (- 1), io)" and "remove_port io port = (- 1, io)"
proof -
  from assms have "emit_PortCountChanging io c \<noteq> 0" for c
    by (auto simp: emit_PortCountChanging_def IntBoolCombiner_eq)
  then show "add_port io destination t = (Inr (- 1), io)" "remove_port io port = (- 1, io)"
    by (simp_all add: add_port_def remove_port_def Let_def)
qed

lemma build_legal_port_name_slots:
  "build_legal_port_name (io\<lparr>PortCountChanging := slots\<rparr>) ps t = build_legal_port_name io ps t"
proof -
  have "port_suffix (io\<lparr>PortCountChanging := slots\<rparr>) t = port_suffix io t"
    by (simp add: port_suffix_def)
  moreover have "find_port_hole (io\<lparr>PortCountChanging := slots\<rparr>) ps b = find_port_hole io ps b" for b
    by (simp add: find_port_hole_def)
  ultimately show ?thesis
    by (simp add: build_legal_port_name_def)
qed


text \<open>
  C7. A slot that answers \<open>-1\<close>, a value that is not zero, does not stop the
  operations: the combiner counts only answers above 0, so the combined answer is 0;
  \<^verbatim>\<open>add_port\<close> registers and adds the port and returns 0, and \<^verbatim>\<open>remove_port\<close>
  unregisters and removes the port and returns 0.
\<close>

theorem negative_veto_ignored:
  "emit_PortCountChanging (sample_io\<lparr>PortCountChanging := [\<lambda>c. - 1]\<rparr>) \<lparr>n_audio = 1, n_midi = 0\<rparr> = 0 \<and>
   fst (add_port (sample_io\<lparr>PortCountChanging := [\<lambda>c. - 1]\<rparr>) [] AUDIO) = Inr 0 \<and>
   map port_name (ports (snd (add_port (sample_io\<lparr>PortCountChanging := [\<lambda>c. - 1]\<rparr>) [] AUDIO)))
     = [''track/audio_in 1''] \<and>
   fst (remove_port (sample_two_port_io\<lparr>PortCountChanging := [\<lambda>c. - 1]\<rparr>)
          (new_port 0 ''track/audio_in 1'' AUDIO True)) = 0 \<and>
   map port_name (ports (snd (remove_port (sample_two_port_io\<lparr>PortCountChanging := [\<lambda>c. - 1]\<rparr>)
          (new_port 0 ''track/audio_in 1'' AUDIO True))))
     = [''track/audio_in 2'']"
proof -
  let ?io = "sample_io\<lparr>PortCountChanging := [\<lambda>c. - 1]\<rparr>"
  have e: "emit_PortCountChanging ?io c = 0" for c
    by (simp add: emit_PortCountChanging_def IntBoolCombiner_def)
  have pn: "build_legal_port_name ?io [] AUDIO = Inr ''track/audio_in 1''"
    by (simp add: build_legal_port_name_slots sample_first_audio_name)
  have a: "fst (add_port ?io [] AUDIO) = Inr 0 \<and>
           map port_name (ports (snd (add_port ?io [] AUDIO))) = [''track/audio_in 1'']"
    unfolding add_port_def Let_def e
    by (simp add: pn can_add_port_def sample_io_sel register_port_def sample_engine_sel
        ps_add_def new_port_def replace_port_def set_dirty_def setup_bundle_def
        apply_pretty_name_def emit_def)
  let ?io2 = "sample_two_port_io\<lparr>PortCountChanging := [\<lambda>c. - 1]\<rparr>"
  have e2: "emit_PortCountChanging ?io2 c = 0" for c
    by (simp add: emit_PortCountChanging_def IntBoolCombiner_def)
  have ps2: "ports ?io2 = [new_port 0 ''track/audio_in 1'' AUDIO True,
                           new_port 1 ''track/audio_in 2'' AUDIO True]"
    by (simp add: sample_two_port_io_def)
  have r: "fst (remove_port ?io2 (new_port 0 ''track/audio_in 1'' AUDIO True)) = 0 \<and>
           map port_name (ports (snd (remove_port ?io2 (new_port 0 ''track/audio_in 1'' AUDIO True))))
             = [''track/audio_in 2'']"
    unfolding remove_port_def Let_def e2 ps2
    by (simp add: ps_remove_def is_NoChange_def NoChange_def set_dirty_def setup_bundle_def
        emit_def new_port_def)
  from e a r show ?thesis by blast
qed

end
